theory Spec2Isabelle
  imports Complex_Main
begin

section \<open>JavaScript numbers\<close>

text \<open>
  A JavaScript \<^verbatim>\<open>number\<close> is modelled as an exact rational; \<^verbatim>\<open>Date.now()\<close> is an
  integer count of milliseconds. \<^verbatim>\<open>Math.round\<close> rounds halves upwards.
\<close>

definition Math_floor :: "rat \<Rightarrow> int" where
  "Math_floor x = \<lfloor>x\<rfloor>"

definition Math_round :: "rat \<Rightarrow> int" where
  "Math_round x = \<lfloor>x + 1 / 2\<rfloor>"

definition Math_ceil :: "rat \<Rightarrow> int" where
  "Math_ceil x = \<lceil>x\<rceil>"

section \<open>JavaScript strings\<close>

text \<open>
  A string is its list of UTF-16 code units, each a number from 0 to 65535; \<open>js\<close> gives
  the units of an ASCII literal.
\<close>

type_synonym jsString = "int list"

definition js :: "string \<Rightarrow> jsString" where
  "js s = map of_char s"

section \<open>The browser store\<close>

text \<open>
  \<^verbatim>\<open>localStorage\<close> maps string keys to serialized text. The text is modelled by what
  \<^verbatim>\<open>JSON.parse\<close> makes of it: a cache record, the rate limiter's saved counters, or
  text that does not parse. \<^verbatim>\<open>setItem\<close> throws when the store refuses the write
  (\<open>writable\<close> is False); the callers catch that.
\<close>

record 'a APICache =
  data :: 'a
  timestamp :: int
  expiry :: rat

record CallData =
  saved_callsToday :: nat
  saved_callsThisMinute :: nat
  saved_minuteStart :: int
  saved_date :: jsString

datatype 'a item = CacheJSON "'a APICache" | CallsJSON CallData | Unparsable

record 'a localStorage =
  items :: "jsString \<rightharpoonup> 'a item"
  writable :: bool

definition getItem :: "'a localStorage \<Rightarrow> jsString \<Rightarrow> 'a item option" where
  "getItem ls k = items ls k"

definition setItem :: "'a localStorage \<Rightarrow> jsString \<Rightarrow> 'a item \<Rightarrow> 'a localStorage option" where
  "setItem ls k v = (if writable ls then Some (ls\<lparr>items := (items ls)(k \<mapsto> v)\<rparr>) else None)"

definition removeItem :: "'a localStorage \<Rightarrow> jsString \<Rightarrow> 'a localStorage" where
  "removeItem ls k = ls\<lparr>items := (items ls)(k := None)\<rparr>"

section \<open>APICacheManager\<close>

definition CACHE_PREFIX :: jsString where
  "CACHE_PREFIX = js ''flight_cache_''"

text \<open>\<^verbatim>\<open>set(key, data, expiryHours)\<close> at time \<open>now\<close>; a refused write is swallowed.\<close>

definition APICacheManager_set ::
  "'a localStorage \<Rightarrow> int \<Rightarrow> jsString \<Rightarrow> 'a \<Rightarrow> rat \<Rightarrow> 'a localStorage" where
  "APICacheManager_set ls now key d expiryHours =
     (let cache = \<lparr>data = d, timestamp = now, expiry = expiryHours * 60 * 60 * 1000\<rparr> in
      case setItem ls (CACHE_PREFIX @ key) (CacheJSON cache) of
        Some ls' \<Rightarrow> ls'
      | None \<Rightarrow> ls)"

text \<open>
  \<^verbatim>\<open>get(key)\<close> at time \<open>now\<close>: the value or \<open>None\<close> for \<^verbatim>\<open>null\<close>, and the store
  afterwards. Text that does not parse, or that parses to something without a
  \<^verbatim>\<open>data\<close> field, yields no value.
\<close>

definition APICacheManager_get ::
  "'a localStorage \<Rightarrow> int \<Rightarrow> jsString \<Rightarrow> 'a option \<times> 'a localStorage" where
  "APICacheManager_get ls now key =
     (case getItem ls (CACHE_PREFIX @ key) of
        None \<Rightarrow> (None, ls)
      | Some (CacheJSON cache) \<Rightarrow>
          (let isExpired = (of_int (now - timestamp cache) > expiry cache) in
           if isExpired then (None, removeItem ls (CACHE_PREFIX @ key))
           else (Some (data cache), ls))
      | Some (CallsJSON c) \<Rightarrow> (None, ls)
      | Some Unparsable \<Rightarrow> (None, ls))"

definition APICacheManager_clear :: "'a localStorage \<Rightarrow> jsString \<Rightarrow> 'a localStorage" where
  "APICacheManager_clear ls key = removeItem ls (CACHE_PREFIX @ key)"

definition startsWith :: "jsString \<Rightarrow> jsString \<Rightarrow> bool" where
  "startsWith s p = (take (length p) s = p)"

definition APICacheManager_clearAll :: "'a localStorage \<Rightarrow> 'a localStorage" where
  "APICacheManager_clearAll ls =
     ls\<lparr>items := (\<lambda>k. if startsWith k CACHE_PREFIX then None else items ls k)\<rparr>"

section \<open>APIRateLimiter\<close>

record RateLimiter =
  callsToday :: nat
  callsThisMinute :: nat
  minuteStart :: int

definition MAX_CALLS_PER_MINUTE :: nat where
  "MAX_CALLS_PER_MINUTE = 10"

definition MAX_CALLS_PER_DAY :: nat where
  "MAX_CALLS_PER_DAY = 39"

definition STORAGE_KEY :: jsString where
  "STORAGE_KEY = js ''amadeus_api_calls''"

text \<open>
  The \<^verbatim>\<open>reason\<close> text of a denial is either the per-minute message, which carries
  the wait in seconds, or the daily-quota message.
\<close>

datatype reason = RateLimitWait int | DailyQuotaExceeded

record CallCheck =
  allowed :: bool
  reason :: "reason option"
  callsLeft :: int

text \<open>
  \<^verbatim>\<open>initialize()\<close> at time \<open>now\<close> on the day \<open>today\<close>. Saved text that does not parse
  leaves the counters as they are; a parsed object without the fields gives the
  \<^verbatim>\<open>||\<close> defaults.
\<close>

definition APIRateLimiter_initialize ::
  "int \<Rightarrow> jsString \<Rightarrow> RateLimiter \<Rightarrow> 'a localStorage \<Rightarrow> RateLimiter" where
  "APIRateLimiter_initialize now today rl ls =
     (case getItem ls STORAGE_KEY of
        None \<Rightarrow> rl
      | Some Unparsable \<Rightarrow> rl
      | Some (CallsJSON d) \<Rightarrow>
          (let rl1 = \<lparr>callsToday = saved_callsToday d,
                      callsThisMinute = saved_callsThisMinute d,
                      minuteStart = (if saved_minuteStart d = 0 then now else saved_minuteStart d)\<rparr>
           in if saved_date d \<noteq> today then rl1\<lparr>callsToday := 0\<rparr> else rl1)
      | Some (CacheJSON c) \<Rightarrow> \<lparr>callsToday = 0, callsThisMinute = 0, minuteStart = now\<rparr>)"

definition APIRateLimiter_canMakeCall :: "RateLimiter \<Rightarrow> int \<Rightarrow> CallCheck \<times> RateLimiter" where
  "APIRateLimiter_canMakeCall rl now =
     (let rl1 = (if now - minuteStart rl > 60000
                 then rl\<lparr>callsThisMinute := 0, minuteStart := now\<rparr> else rl)
      in if callsThisMinute rl1 \<ge> MAX_CALLS_PER_MINUTE then
           (let waitTime = Math_ceil (of_int (60000 - (now - minuteStart rl1)) / 1000)
            in (\<lparr>allowed = False, reason = Some (RateLimitWait waitTime), callsLeft = 0\<rparr>, rl1))
         else
           (let left = int MAX_CALLS_PER_DAY - int (callsToday rl1)
            in if callsToday rl1 \<ge> MAX_CALLS_PER_DAY then
                 (\<lparr>allowed = False, reason = Some DailyQuotaExceeded, callsLeft = 0\<rparr>, rl1)
               else (\<lparr>allowed = True, reason = None, callsLeft = left\<rparr>, rl1)))"

text \<open>\<^verbatim>\<open>recordCall()\<close> on the day \<open>today\<close>; a refused write is swallowed.\<close>

definition APIRateLimiter_recordCall ::
  "jsString \<Rightarrow> RateLimiter \<times> 'a localStorage \<Rightarrow> RateLimiter \<times> 'a localStorage" where
  "APIRateLimiter_recordCall today s =
     (let rl = fst s; ls = snd s;
          rl' = rl\<lparr>callsToday := callsToday rl + 1, callsThisMinute := callsThisMinute rl + 1\<rparr>;
          d = \<lparr>saved_callsToday = callsToday rl', saved_callsThisMinute = callsThisMinute rl',
               saved_minuteStart = minuteStart rl', saved_date = today\<rparr>
      in (rl', case setItem ls STORAGE_KEY (CallsJSON d) of Some ls' \<Rightarrow> ls' | None \<Rightarrow> ls))"

definition APIRateLimiter_resetDailyCount ::
  "int \<Rightarrow> RateLimiter \<times> 'a localStorage \<Rightarrow> RateLimiter \<times> 'a localStorage" where
  "APIRateLimiter_resetDailyCount now s =
     (\<lparr>callsToday = 0, callsThisMinute = 0, minuteStart = now\<rparr>, removeItem (snd s) STORAGE_KEY)"

text \<open>
  A sequence of checks at the times \<open>ts\<close>, each followed by \<^verbatim>\<open>recordCall\<close> when and only
  when it was allowed, as every caller in \<^verbatim>\<open>FlightAPI\<close> does. \<open>admitted\<close> lists the
  admitted calls: the time of the call and the \<open>minuteStart\<close> it was counted under.
\<close>

definition admit ::
  "jsString \<Rightarrow> int \<Rightarrow> RateLimiter \<times> 'a localStorage \<Rightarrow> bool \<times> RateLimiter \<times> 'a localStorage" where
  "admit today now s =
     (let r = APIRateLimiter_canMakeCall (fst s) now
      in if allowed (fst r) then (True, APIRateLimiter_recordCall today (snd r, snd s))
         else (False, (snd r, snd s)))"

fun admitted ::
  "jsString \<Rightarrow> RateLimiter \<times> 'a localStorage \<Rightarrow> int list \<Rightarrow> (int \<times> int) list" where
  "admitted today s [] = []"
| "admitted today s (now # ts) =
     (let r = admit today now s
      in (if fst r then [(now, minuteStart (fst (snd r)))] else []) @ admitted today (snd r) ts)"

definition inWindow :: "int \<Rightarrow> int \<times> int \<Rightarrow> bool" where
  "inWindow w c = (snd c = w)"

definition between :: "int \<Rightarrow> int \<Rightarrow> int \<times> int \<Rightarrow> bool" where
  "between a b c = (a \<le> fst c \<and> fst c < b)"

text \<open>The counters after the window check of \<^verbatim>\<open>canMakeCall\<close> at time \<open>now\<close>.\<close>

definition windowReset :: "RateLimiter \<Rightarrow> int \<Rightarrow> RateLimiter" where
  "windowReset rl now =
     (if now - minuteStart rl > 60000 then rl\<lparr>callsThisMinute := 0, minuteStart := now\<rparr> else rl)"

text \<open>How many more calls the tracker can still count under the window start \<open>w\<close>.\<close>

definition windowRoom :: "RateLimiter \<Rightarrow> int \<Rightarrow> nat" where
  "windowRoom rl w =
     (if w < minuteStart rl then 0
      else if w = minuteStart rl then 10 - callsThisMinute rl else 10)"

text \<open>The tracker as the class initialises it, loaded at time 0 over an empty store.\<close>

definition freshTracker :: "RateLimiter \<times> unit localStorage" where
  "freshTracker = (\<lparr>callsToday = 0, callsThisMinute = 0, minuteStart = 0\<rparr>,
                   \<lparr>items = Map.empty, writable = True\<rparr>)"

section \<open>Strings\<close>

text \<open>
  \<^verbatim>\<open>length\<close> counts code units. \<^verbatim>\<open>includes\<close> is the substring test and \<^verbatim>\<open>toString\<close> prints
  an integer in decimal. \<^verbatim>\<open>String.prototype.toLowerCase\<close> follows the case tables of the
  runtime, which are no part of the repository: the functions that call it take it as
  the parameter \<open>lower\<close>, and an operation finds it in its world as \<open>toLowerCase\<close>.
\<close>

fun str_includes :: "jsString \<Rightarrow> jsString \<Rightarrow> bool" where
  "str_includes [] q = (q = [])"
| "str_includes (c # cs) q = (startsWith (c # cs) q \<or> str_includes cs q)"

definition digitUnit :: "nat \<Rightarrow> int" where
  "digitUnit d = 48 + int d"

fun digits :: "nat \<Rightarrow> jsString" where
  "digits n = (if n < 10 then [digitUnit n] else digits (n div 10) @ [digitUnit (n mod 10)])"

definition toString :: "int \<Rightarrow> jsString" where
  "toString n = (if n < 0 then js ''-'' @ digits (nat (- n)) else digits (nat n))"

definition padStart2 :: "jsString \<Rightarrow> jsString" where
  "padStart2 s = replicate (2 - length s) 48 @ s"

definition boolString :: "bool \<Rightarrow> jsString" where
  "boolString b = (if b then js ''true'' else js ''false'')"

text \<open>The remainder operator \<^verbatim>\<open>%\<close>, which takes the sign of the dividend.\<close>

definition js_rem :: "int \<Rightarrow> int \<Rightarrow> int" where
  "js_rem a b = sgn a * (\<bar>a\<bar> mod \<bar>b\<bar>)"

text \<open>Reading a clock text \<^verbatim>\<open>HH:MM\<close> back as minutes of the day.\<close>

definition digitVal :: "int \<Rightarrow> int" where
  "digitVal c = c - 48"

fun minutesOfDay :: "jsString \<Rightarrow> int option" where
  "minutesOfDay [h1, h2, c, m1, m2] =
     (if c = 58 then Some ((digitVal h1 * 10 + digitVal h2) * 60 + digitVal m1 * 10 + digitVal m2)
      else None)"
| "minutesOfDay s = None"

section \<open>Mock data\<close>

record Airline =
  al_code :: jsString
  al_name :: jsString
  al_logo :: jsString

record Airport =
  code :: jsString
  name :: jsString
  city :: jsString

definition MOCK_AIRLINES :: "Airline list" where
  "MOCK_AIRLINES =
     [\<lparr>al_code = js ''AA'', al_name = js ''American Airlines'', al_logo = js ''AA''\<rparr>,
      \<lparr>al_code = js ''DL'', al_name = js ''Delta Air Lines'', al_logo = js ''DL''\<rparr>,
      \<lparr>al_code = js ''UA'', al_name = js ''United Airlines'', al_logo = js ''UA''\<rparr>,
      \<lparr>al_code = js ''WN'', al_name = js ''Southwest Airlines'', al_logo = js ''WN''\<rparr>,
      \<lparr>al_code = js ''B6'', al_name = js ''JetBlue'', al_logo = js ''B6''\<rparr>,
      \<lparr>al_code = js ''AS'', al_name = js ''Alaska Airlines'', al_logo = js ''AS''\<rparr>,
      \<lparr>al_code = js ''BA'', al_name = js ''British Airways'', al_logo = js ''BA''\<rparr>,
      \<lparr>al_code = js ''LH'', al_name = js ''Lufthansa'', al_logo = js ''LH''\<rparr>,
      \<lparr>al_code = js ''AF'', al_name = js ''Air France'', al_logo = js ''AF''\<rparr>,
      \<lparr>al_code = js ''EK'', al_name = js ''Emirates'', al_logo = js ''EK''\<rparr>]"

definition MOCK_AIRPORTS :: "Airport list" where
  "MOCK_AIRPORTS =
     [\<lparr>code = js ''JFK'', name = js ''John F. Kennedy International'', city = js ''New York''\<rparr>,
      \<lparr>code = js ''LAX'', name = js ''Los Angeles International'', city = js ''Los Angeles''\<rparr>,
      \<lparr>code = js ''ORD'', name = js ''O'' @ [39] @ js ''Hare International'', city = js ''Chicago''\<rparr>,
      \<lparr>code = js ''DFW'', name = js ''Dallas/Fort Worth International'', city = js ''Dallas''\<rparr>,
      \<lparr>code = js ''MIA'', name = js ''Miami International'', city = js ''Miami''\<rparr>,
      \<lparr>code = js ''SEA'', name = js ''Seattle'' @ [8211] @ js ''Tacoma International'',
        city = js ''Seattle''\<rparr>,
      \<lparr>code = js ''ATL'', name = js ''Hartsfield-Jackson Atlanta'', city = js ''Atlanta''\<rparr>,
      \<lparr>code = js ''DEN'', name = js ''Denver International'', city = js ''Denver''\<rparr>,
      \<lparr>code = js ''SFO'', name = js ''San Francisco International'', city = js ''San Francisco''\<rparr>,
      \<lparr>code = js ''LAS'', name = js ''Harry Reid International'', city = js ''Las Vegas''\<rparr>,
      \<lparr>code = js ''LHR'', name = js ''Heathrow Airport'', city = js ''London''\<rparr>,
      \<lparr>code = js ''CDG'', name = js ''Charles de Gaulle Airport'', city = js ''Paris''\<rparr>,
      \<lparr>code = js ''FRA'', name = js ''Frankfurt Airport'', city = js ''Frankfurt''\<rparr>,
      \<lparr>code = js ''DXB'', name = js ''Dubai International'', city = js ''Dubai''\<rparr>]"

definition commonHubs :: "jsString list" where
  "commonHubs = [js ''ATL'', js ''ORD'', js ''DFW'', js ''DEN'', js ''LAX'', js ''JFK'', js ''MIA'', js ''SEA'']"

definition aircraftTypes :: "jsString list" where
  "aircraftTypes = [js ''Boeing 737'', js ''Airbus A320'', js ''Boeing 787'', js ''Airbus A350'',
     (js ''Boeing 777''), js ''Airbus A330'', js ''Embraer E190'', js ''Bombardier CRJ900'']"

definition matchesQuery ::
  "(jsString \<Rightarrow> jsString) \<Rightarrow> jsString \<Rightarrow> Airport \<Rightarrow> bool" where
  "matchesQuery lower query airport =
     (str_includes (lower (code airport)) (lower query) \<or>
      str_includes (lower (city airport)) (lower query) \<or>
      str_includes (lower (name airport)) (lower query))"

definition getMockAirportSuggestions ::
  "(jsString \<Rightarrow> jsString) \<Rightarrow> jsString \<Rightarrow> Airport list" where
  "getMockAirportSuggestions lower query =
     (if query = [] then [] else take 8 (filter (matchesQuery lower query) MOCK_AIRPORTS))"

section \<open>Records of the facade\<close>

record Passengers =
  adults :: nat
  children :: nat
  infants :: nat

text \<open>
  A \<^verbatim>\<open>Date\<close> object holds a time in milliseconds, or it is the Invalid Date, on which
  \<^verbatim>\<open>toISOString\<close> throws a range error.
\<close>

datatype jsDate = DateAt int | InvalidDate

record SearchParams =
  origin :: jsString
  destination :: jsString
  departureDate :: jsDate
  returnDate :: "jsDate option"
  passengers :: Passengers

text \<open>A stop leg; its \<^verbatim>\<open>duration\<close> field is called \<open>layover\<close> here.\<close>

record StopDetail =
  airport :: jsString
  layover :: int

record Flight =
  flight_id :: jsString
  airline :: jsString
  airlineLogo :: jsString
  flightNumber :: jsString
  f_origin :: jsString
  f_destination :: jsString
  departureTime :: jsString
  arrivalTime :: jsString
  duration :: int
  price :: int
  stops :: nat
  stopDetails :: "StopDetail list option"
  aircraft :: jsString

record PriceDataPoint =
  p_date :: jsString
  p_price :: rat
  p_airline :: jsString

record Destination =
  d_type :: jsString
  d_origin :: jsString
  d_destination :: jsString
  d_departureDate :: jsString
  d_returnDate :: "jsString option"
  d_total :: rat
  d_flightDates :: jsString
  d_flightOffers :: jsString

text \<open>The mock inspiration object; its constant \<^verbatim>\<open>dictionaries\<close> part is left out.\<close>

record Inspiration =
  i_data :: "Destination list"
  i_count :: nat

text \<open>
  What the operations return and what the cache holds. JavaScript does not check the
  type parameter of \<^verbatim>\<open>get<T>\<close> at run time, so a cached value is returned as it is.
\<close>

datatype payload =
  PNull | PInspiration Inspiration | PTrends "PriceDataPoint list" | PAirports "Airport list"

definition truthy :: "payload \<Rightarrow> bool" where
  "truthy p = (p \<noteq> PNull)"

section \<open>Synthesis\<close>

text \<open>
  \<^verbatim>\<open>Math.random()\<close> is a stream \<open>g\<close> of numbers; \<open>k\<close> counts the draws made so far,
  and every generator returns the count after its own draws.
\<close>

type_synonym rng = "nat \<Rightarrow> rat"

definition calculateRealisticDuration ::
  "rng \<Rightarrow> nat \<Rightarrow> jsString \<Rightarrow> jsString \<Rightarrow> nat \<Rightarrow> int \<times> nat" where
  "calculateRealisticDuration g k orig dest nStops =
     (let baseDuration = 90 + g k * 300;
          stopPenalty = of_nat nStops * 120
      in (Math_round (baseDuration + stopPenalty), k + 1))"

definition generateRealisticStopDetails :: "rng \<Rightarrow> nat \<Rightarrow> nat \<Rightarrow> StopDetail list \<times> nat" where
  "generateRealisticStopDetails g k nStops =
     (map (\<lambda>i. \<lparr>airport = commonHubs ! nat (Math_floor (g (k + 2 * i) * of_nat (length commonHubs))),
                 layover = 60 + Math_floor (g (k + 2 * i + 1) * 120)\<rparr>) [0..<nStops],
      k + 2 * nStops)"

definition getRandomAircraft :: "rng \<Rightarrow> nat \<Rightarrow> jsString \<times> nat" where
  "getRandomAircraft g k =
     (aircraftTypes ! nat (Math_floor (g k * of_nat (length aircraftTypes))), k + 1)"

definition calculateArrivalTime :: "int \<Rightarrow> int \<Rightarrow> jsString" where
  "calculateArrivalTime departureHour durationMinutes =
     (let totalMinutes = departureHour * 60 + durationMinutes;
          arrivalHour = js_rem (Math_floor (of_int totalMinutes / 60)) 24;
          arrivalMinute = js_rem totalMinutes 60
      in padStart2 (toString arrivalHour) @ js '':'' @ padStart2 (toString arrivalMinute))"

text \<open>
  The body of the loop of \<^verbatim>\<open>generateEnhancedMockFlights\<close> for the index \<open>i\<close>, at time
  \<open>t\<close>, with the draws in the order in which the source makes them.
\<close>

definition mockFlight :: "rng \<Rightarrow> int \<Rightarrow> SearchParams \<Rightarrow> rat \<Rightarrow> nat \<Rightarrow> nat \<Rightarrow> Flight \<times> nat" where
  "mockFlight g t params actualBasePrice i k =
     (let carrier = MOCK_AIRLINES ! nat (Math_floor (g k * of_nat (length MOCK_AIRLINES)));
          s = (if g (k + 1) > 6 / 10 then (1, k + 2)
               else if g (k + 2) > 85 / 100 then (2, k + 3) else (0, k + 3));
          nStops = fst s;
          departureHour = 6 + Math_floor (g (snd s) * 16);
          d = calculateRealisticDuration g (snd s + 1) (origin params) (destination params) nStops;
          durationMinutes = fst d;
          priceVariation = 75 / 100 + g (snd d) * (5 / 10);
          fare = Math_round (actualBasePrice * priceVariation);
          number = al_code carrier @ toString (Math_floor (100 + g (snd d + 1) * 900));
          departs = padStart2 (toString departureHour) @ js '':'' @
                    (if g (snd d + 2) > 5 / 10 then js ''00'' else js ''30'');
          sd = (if nStops > 0
                then (Some (fst (generateRealisticStopDetails g (snd d + 3) nStops)),
                      snd (generateRealisticStopDetails g (snd d + 3) nStops))
                else (None, snd d + 3));
          ac = getRandomAircraft g (snd sd)
      in (\<lparr>flight_id = js ''ENHANCED-'' @ toString t @ js ''-'' @ toString (int i),
           airline = al_name carrier,
           airlineLogo = al_code carrier,
           flightNumber = number,
           f_origin = origin params,
           f_destination = destination params,
           departureTime = departs,
           arrivalTime = calculateArrivalTime departureHour durationMinutes,
           duration = durationMinutes,
           price = fare,
           stops = nStops,
           stopDetails = fst sd,
           aircraft = fst ac\<rparr>, snd ac))"

text \<open>The loop \<^verbatim>\<open>for (i = 0; i < flightCount; i++)\<close>, with \<open>n\<close> rounds left.\<close>

fun flightLoop :: "rng \<Rightarrow> int \<Rightarrow> SearchParams \<Rightarrow> rat \<Rightarrow> nat \<Rightarrow> nat \<Rightarrow> nat \<Rightarrow> Flight list \<times> nat" where
  "flightLoop g t params actualBasePrice 0 i k = ([], k)"
| "flightLoop g t params actualBasePrice (Suc n) i k =
     (let f = mockFlight g t params actualBasePrice i k;
          r = flightLoop g t params actualBasePrice n (Suc i) (snd f)
      in (fst f # fst r, snd r))"

text \<open>
  \<open>basePrice\<close> is \<open>None\<close> for an absent argument and for \<^verbatim>\<open>NaN\<close>; these and 0 are the
  falsy values that \<^verbatim>\<open>||\<close> replaces. \<^verbatim>\<open>sort\<close> is stable, as \<open>sort_key\<close> is.
\<close>

definition generateEnhancedMockFlights ::
  "rng \<Rightarrow> int \<Rightarrow> SearchParams \<Rightarrow> rat option \<Rightarrow> nat \<Rightarrow> Flight list \<times> nat" where
  "generateEnhancedMockFlights g t params basePrice k =
     (let b = (case basePrice of
                 Some v \<Rightarrow> if v \<noteq> 0 then (v, k) else (200 + g k * 800, k + 1)
               | None \<Rightarrow> (200 + g k * 800, k + 1));
          actualBasePrice = fst b;
          flightCount = 12 + Math_floor (g (snd b) * 6);
          r = flightLoop g t params actualBasePrice (nat flightCount) 0 (snd b + 1)
      in (sort_key price (fst r), snd r))"

text \<open>\<open>isoDateAfter i\<close> is the ISO date \<open>i\<close> days after today.\<close>

definition getMockPriceTrendsForRoute ::
  "rng \<Rightarrow> (nat \<Rightarrow> jsString) \<Rightarrow> nat \<Rightarrow> jsString \<Rightarrow> jsString \<Rightarrow> PriceDataPoint list \<times> nat" where
  "getMockPriceTrendsForRoute g isoDateAfter k orig dest =
     (map (\<lambda>i. let fluctuation = 8 / 10 + g (k + 2 * i) * (4 / 10)
                in \<lparr>p_date = isoDateAfter i,
                    p_price = of_int (Math_round (300 * fluctuation)),
                    p_airline = al_name (MOCK_AIRLINES !
                      nat (Math_floor (g (k + 2 * i + 1) * of_nat (length MOCK_AIRLINES))))\<rparr>)
        [0..<7],
      k + 14)"

definition mockDestinations :: "(jsString \<times> jsString \<times> int) list" where
  "mockDestinations =
     [(js ''LAX'', js ''Los Angeles'', 280), (js ''ORD'', js ''Chicago'', 220), (js ''MIA'', js ''Miami'', 190),
      (js ''SEA'', js ''Seattle'', 320), (js ''DEN'', js ''Denver'', 250), (js ''ATL'', js ''Atlanta'', 210),
      (js ''DFW'', js ''Dallas'', 230), (js ''SFO'', js ''San Francisco'', 350), (js ''LHR'', js ''London'', 550),
      (js ''CDG'', js ''Paris'', 520)]"

text \<open>\<^verbatim>\<open>toFixed(2)\<close> is modelled as rounding to hundredths; \<open>maxPrice\<close> is integral.\<close>

definition getMockInspirationData ::
  "rng \<Rightarrow> (nat \<Rightarrow> jsString) \<Rightarrow> nat \<Rightarrow> jsString \<Rightarrow> int \<Rightarrow> bool \<Rightarrow> Inspiration \<times> nat" where
  "getMockInspirationData g isoDateAfter k orig maxPrice oneWay =
     (let kept = filter (\<lambda>dest. snd (snd dest) \<le> maxPrice) mockDestinations;
          ds = map (\<lambda>(j, dest).
                 \<lparr>d_type = js ''flight-destination'',
                  d_origin = orig,
                  d_destination = fst dest,
                  d_departureDate = isoDateAfter 7,
                  d_returnDate = (if oneWay then None else Some (isoDateAfter 14)),
                  d_total = of_int (Math_round ((of_int (snd (snd dest)) + g (k + j) * 50) * 100)) / 100,
                  d_flightDates = js ''https://test.api.amadeus.com/v1/shopping/flight-dates?origin='' @
                     orig @ js ''&destination='' @ fst dest,
                  d_flightOffers =
                     (js ''https://test.api.amadeus.com/v2/shopping/flight-offers?originLocationCode='') @
                     orig @ js ''&destinationLocationCode='' @ fst dest\<rparr>)
               (enumerate 0 kept)
      in (\<lparr>i_data = ds, i_count = length ds\<rparr>, k + length kept))"

section \<open>The world outside\<close>

text \<open>
  A request made with axios is fulfilled with a body or rejected with an axios error,
  which carries the HTTP status when there was a response. The token body gives the
  token, if any, and the lifetime in seconds. A priced date of the flight-dates body
  gives \<^verbatim>\<open>parseFloat(price.total)\<close> when \<^verbatim>\<open>price.total\<close> is there and truthy (a total
  that parses to \<^verbatim>\<open>NaN\<close> is not modelled). In a list
  of the body, \<open>None\<close> is a \<^verbatim>\<open>null\<close> element; for the list itself \<open>None\<close> means that
  \<^verbatim>\<open>data.data\<close> is missing or is not an array.
\<close>

datatype 'a outcome = Fulfilled 'a | Rejected "nat option"

record TokenResponse =
  access_token :: "jsString option"
  expires_in :: int

record DateItem =
  item_departureDate :: jsString
  item_total :: "rat option"

record Location =
  iataCode :: "jsString option"
  loc_name :: "jsString option"
  cityName :: "jsString option"

text \<open>
  What one operation meets: the configuration flag, the clock (read once per
  operation), today's date text, the date functions, the random stream, the lower-casing
  of the runtime and the answer that each upstream endpoint would give.
\<close>

record env =
  MOCK_MODE :: bool
  Date_now :: int
  toDateString :: jsString
  isoDateAfter :: "nat \<Rightarrow> jsString"
  dateValue :: "jsString \<Rightarrow> int"
  random :: rng
  toLowerCase :: "jsString \<Rightarrow> jsString"
  tokenResponse :: "TokenResponse outcome"
  inspirationResponse :: "payload outcome"
  datesResponse :: "DateItem option list option outcome"
  locationsResponse :: "Location option list option outcome"

datatype error = AxiosError "nat option" | Error jsString | TypeError | RangeError

datatype endpoint = OAuth2Token | FlightDestinations | FlightDates | Locations | FlightOffers

text \<open>
  The effects of an operation in their order: a \<^verbatim>\<open>recordCall\<close> with the counters it
  leaves, and every HTTP request.
\<close>

datatype event = CallRecorded nat nat | HttpRequest endpoint

record TokenInfo =
  accessToken :: jsString
  expiresAt :: int

text \<open>
  The state that outlives an operation: the store, the counters of the tracker, the
  cached token, the number of random draws made so far, and the trace of the effects.
\<close>

record state =
  storage :: "payload localStorage"
  limiter :: RateLimiter
  tokenInfo :: "TokenInfo option"
  drawn :: nat
  trace :: "event list"

section \<open>Token management\<close>

definition authFailed :: error where
  "authFailed = Error (js ''Failed to authenticate with Amadeus API'')"

text \<open>
  The credential exchange of \<^verbatim>\<open>getAmadeusToken\<close>: the \<^verbatim>\<open>try\<close> block, whose every
  failure the \<^verbatim>\<open>catch\<close> block turns into the one authentication error.
\<close>

definition exchangeToken :: "env \<Rightarrow> state \<Rightarrow> (error + jsString) \<times> state" where
  "exchangeToken e st =
     (let st1 = st\<lparr>trace := trace st @ [HttpRequest OAuth2Token]\<rparr>
      in case tokenResponse e of
           Rejected status \<Rightarrow> (Inl authFailed, st1)
         | Fulfilled r \<Rightarrow>
             (case access_token r of
                None \<Rightarrow> (Inl authFailed, st1)
              | Some tok \<Rightarrow>
                  if tok = [] then (Inl authFailed, st1)
                  else (Inr tok,
                        st1\<lparr>tokenInfo := Some \<lparr>accessToken = tok,
                                                 expiresAt = Date_now e + 25 * 60 * 1000\<rparr>\<rparr>)))"

definition getAmadeusToken :: "env \<Rightarrow> state \<Rightarrow> (error + jsString) \<times> state" where
  "getAmadeusToken e st =
     (case tokenInfo st of
        Some ti \<Rightarrow> if Date_now e < expiresAt ti then (Inr (accessToken ti), st)
                   else exchangeToken e st
      | None \<Rightarrow> exchangeToken e st)"

section \<open>FlightAPI\<close>

definition useMockFlights :: "env \<Rightarrow> SearchParams \<Rightarrow> rat option \<Rightarrow> state \<Rightarrow> Flight list \<times> state" where
  "useMockFlights e params basePrice st =
     (let r = generateEnhancedMockFlights (random e) (Date_now e) params basePrice (drawn st)
      in (fst r, st\<lparr>drawn := snd r\<rparr>))"

definition useMockTrends :: "env \<Rightarrow> jsString \<Rightarrow> jsString \<Rightarrow> state \<Rightarrow> (error + payload) \<times> state" where
  "useMockTrends e orig dest st =
     (let r = getMockPriceTrendsForRoute (random e) (isoDateAfter e) (drawn st) orig dest
      in (Inr (PTrends (fst r)), st\<lparr>drawn := snd r\<rparr>))"

definition useMockInspiration ::
  "env \<Rightarrow> jsString \<Rightarrow> int \<Rightarrow> bool \<Rightarrow> state \<Rightarrow> (error + payload) \<times> state" where
  "useMockInspiration e orig maxPrice oneWay st =
     (let r = getMockInspirationData (random e) (isoDateAfter e) (drawn st) orig maxPrice oneWay
      in (Inr (PInspiration (fst r)), st\<lparr>drawn := snd r\<rparr>))"

text \<open>\<^verbatim>\<open>APICacheManager.get\<close>, \<^verbatim>\<open>set\<close>, \<^verbatim>\<open>canMakeCall\<close> and \<^verbatim>\<open>recordCall\<close> on the whole state.\<close>

definition cacheGet :: "env \<Rightarrow> jsString \<Rightarrow> state \<Rightarrow> payload option \<times> state" where
  "cacheGet e key st =
     (let r = APICacheManager_get (storage st) (Date_now e) key
      in (fst r, st\<lparr>storage := snd r\<rparr>))"

definition cacheSet :: "env \<Rightarrow> jsString \<Rightarrow> payload \<Rightarrow> rat \<Rightarrow> state \<Rightarrow> state" where
  "cacheSet e key d expiryHours st =
     st\<lparr>storage := APICacheManager_set (storage st) (Date_now e) key d expiryHours\<rparr>"

definition canMakeCall :: "env \<Rightarrow> state \<Rightarrow> CallCheck \<times> state" where
  "canMakeCall e st =
     (let r = APIRateLimiter_canMakeCall (limiter st) (Date_now e)
      in (fst r, st\<lparr>limiter := snd r\<rparr>))"

definition recordCall :: "env \<Rightarrow> state \<Rightarrow> state" where
  "recordCall e st =
     (let r = APIRateLimiter_recordCall (toDateString e) (limiter st, storage st)
      in st\<lparr>limiter := fst r, storage := snd r,
            trace := trace st @ [CallRecorded (callsToday (fst r)) (callsThisMinute (fst r))]\<rparr>)"

definition isHit :: "payload option \<Rightarrow> bool" where
  "isHit c = (case c of Some p \<Rightarrow> truthy p | None \<Rightarrow> False)"

definition hitValue :: "payload option \<Rightarrow> payload" where
  "hitValue c = (case c of Some p \<Rightarrow> p | None \<Rightarrow> PNull)"

subsection \<open>Flight inspiration\<close>

text \<open>The \<^verbatim>\<open>try\<close> block of \<^verbatim>\<open>getFlightInspiration\<close>.\<close>

definition inspirationLive :: "env \<Rightarrow> jsString \<Rightarrow> state \<Rightarrow> (error + payload) \<times> state" where
  "inspirationLive e cacheKey st =
     (let st1 = recordCall e st;
          tk = getAmadeusToken e st1
      in case fst tk of
           Inl err \<Rightarrow> (Inl err, snd tk)
         | Inr token \<Rightarrow>
             (let st2 = (snd tk)\<lparr>trace := trace (snd tk) @ [HttpRequest FlightDestinations]\<rparr>
              in case inspirationResponse e of
                   Rejected status \<Rightarrow> (Inl (AxiosError status), st2)
                 | Fulfilled body \<Rightarrow> (Inr body, cacheSet e cacheKey body 24 st2)))"

definition getFlightInspiration ::
  "env \<Rightarrow> jsString \<Rightarrow> int \<Rightarrow> bool \<Rightarrow> state \<Rightarrow> (error + payload) \<times> state" where
  "getFlightInspiration e orig maxPrice oneWay st =
     (let cacheKey = js ''inspiration_'' @ orig @ js ''_'' @ toString maxPrice @ js ''_'' @ boolString oneWay;
          c = cacheGet e cacheKey st
      in if isHit (fst c) then (Inr (hitValue (fst c)), snd c)
         else if MOCK_MODE e then useMockInspiration e orig maxPrice oneWay (snd c)
         else (let chk = canMakeCall e (snd c)
               in if \<not> allowed (fst chk) then useMockInspiration e orig maxPrice oneWay (snd chk)
                  else (let r = inspirationLive e cacheKey (snd chk)
                        in case fst r of
                             Inr p \<Rightarrow> r
                           | Inl (AxiosError status) \<Rightarrow>
                               useMockInspiration e orig maxPrice oneWay (snd r)
                           | Inl err \<Rightarrow> (Inl err, snd r))))"

subsection \<open>Cheapest dates and price trends\<close>

definition toPriceTrends :: "DateItem list \<Rightarrow> PriceDataPoint list" where
  "toPriceTrends its =
     map (\<lambda>it. \<lparr>p_date = item_departureDate it, p_price = the (item_total it),
                  p_airline = js ''Various''\<rparr>)
       (filter (\<lambda>it. item_total it \<noteq> None) its)"

text \<open>The \<^verbatim>\<open>try\<close> block of \<^verbatim>\<open>getFlightCheapestDates\<close>; reading a \<^verbatim>\<open>null\<close> item throws.\<close>

definition cheapestDatesLive ::
  "env \<Rightarrow> jsString \<Rightarrow> jsString \<Rightarrow> jsString \<Rightarrow> state \<Rightarrow> (error + payload) \<times> state" where
  "cheapestDatesLive e orig dest cacheKey st =
     (let st1 = recordCall e st;
          tk = getAmadeusToken e st1
      in case fst tk of
           Inl err \<Rightarrow> (Inl err, snd tk)
         | Inr token \<Rightarrow>
             (let st2 = (snd tk)\<lparr>trace := trace (snd tk) @ [HttpRequest FlightDates]\<rparr>
              in case datesResponse e of
                   Rejected status \<Rightarrow> (Inl (AxiosError status), st2)
                 | Fulfilled None \<Rightarrow> useMockTrends e orig dest st2
                 | Fulfilled (Some its) \<Rightarrow>
                     if None \<in> set its then (Inl TypeError, st2)
                     else (let priceTrends =
                                 sort_key (\<lambda>p. dateValue e (p_date p)) (toPriceTrends (map the its))
                           in (Inr (PTrends priceTrends),
                               cacheSet e cacheKey (PTrends priceTrends) 168 st2))))"

definition getFlightCheapestDates ::
  "env \<Rightarrow> jsString \<Rightarrow> jsString \<Rightarrow> bool \<Rightarrow> state \<Rightarrow> (error + payload) \<times> state" where
  "getFlightCheapestDates e orig dest oneWay st =
     (if orig = dest then useMockTrends e orig dest st
      else
        (let cacheKey = js ''cheapest_dates_'' @ orig @ js ''_'' @ dest @ js ''_'' @ boolString oneWay;
             c = cacheGet e cacheKey st
         in if isHit (fst c) then (Inr (hitValue (fst c)), snd c)
            else if MOCK_MODE e then useMockTrends e orig dest (snd c)
            else (let chk = canMakeCall e (snd c)
                  in if \<not> allowed (fst chk) then useMockTrends e orig dest (snd chk)
                     else (let r = cheapestDatesLive e orig dest cacheKey (snd chk)
                           in case fst r of
                                Inr p \<Rightarrow> r
                              | Inl (AxiosError status) \<Rightarrow> useMockTrends e orig dest (snd r)
                              | Inl err \<Rightarrow> (Inl err, snd r)))))"

definition getPriceTrends :: "env \<Rightarrow> SearchParams \<Rightarrow> state \<Rightarrow> (error + payload) \<times> state" where
  "getPriceTrends e params st =
     (if origin params = destination params
      then useMockTrends e (origin params) (destination params) st
      else getFlightCheapestDates e (origin params) (destination params) False st)"

subsection \<open>Flight search\<close>

text \<open>
  The average of \<^verbatim>\<open>searchFlights\<close>: \<^verbatim>\<open>priceTrends.length > 0 ? sum / length : 300\<close>,
  as JavaScript computes it on whatever \<^verbatim>\<open>getPriceTrends\<close> returned. \<open>None\<close> is \<^verbatim>\<open>NaN\<close>
  (the sum of prices that are not there); reading \<^verbatim>\<open>length\<close> of \<^verbatim>\<open>null\<close> throws.
\<close>

definition averagePrice :: "payload \<Rightarrow> error + rat option" where
  "averagePrice priceTrends =
     (case priceTrends of
        PTrends ps \<Rightarrow>
          Inr (Some (if length ps > 0 then sum_list (map p_price ps) / of_nat (length ps) else 300))
      | PAirports as \<Rightarrow> Inr (if length as > 0 then None else Some 300)
      | PInspiration d \<Rightarrow> Inr (Some 300)
      | PNull \<Rightarrow> Inl TypeError)"

text \<open>A list of flights as the value that the operation resolves with.\<close>

definition resolved :: "Flight list \<times> state \<Rightarrow> (error + Flight list) \<times> state" where
  "resolved r = (Inr (fst r), snd r)"

text \<open>
  The first statement logs \<^verbatim>\<open>params.departureDate.toISOString()\<close>, outside every \<^verbatim>\<open>try\<close>:
  on the Invalid Date the operation throws there.
\<close>

definition searchFlights ::
  "env \<Rightarrow> SearchParams \<Rightarrow> state \<Rightarrow> (error + Flight list) \<times> state" where
  "searchFlights e params st =
     (if departureDate params = InvalidDate then (Inl RangeError, st)
      else if origin params = destination params then resolved (useMockFlights e params None st)
      else if MOCK_MODE e then resolved (useMockFlights e params None st)
      else (let r = getPriceTrends e params st
            in case fst r of
                 Inl err \<Rightarrow> resolved (useMockFlights e params None (snd r))
               | Inr priceTrends \<Rightarrow>
                   (case averagePrice priceTrends of
                      Inl err \<Rightarrow> resolved (useMockFlights e params None (snd r))
                    | Inr avgPrice \<Rightarrow> resolved (useMockFlights e params avgPrice (snd r)))))"

subsection \<open>Airport suggestions\<close>

definition truthyString :: "jsString option \<Rightarrow> bool" where
  "truthyString s = (case s of Some x \<Rightarrow> x \<noteq> [] | None \<Rightarrow> False)"

definition toSuggestion :: "Location \<Rightarrow> Airport" where
  "toSuggestion l =
     \<lparr>code = the (iataCode l), name = the (loc_name l),
      city = (if truthyString (cityName l) then the (cityName l) else js ''Unknown'')\<rparr>"

fun findIndex :: "('a \<Rightarrow> bool) \<Rightarrow> 'a list \<Rightarrow> int" where
  "findIndex P [] = - 1"
| "findIndex P (x # xs) =
     (if P x then 0 else (let r = findIndex P xs in if r < 0 then - 1 else r + 1))"

text \<open>The filter \<^verbatim>\<open>index === self.findIndex(s => s.code === suggestion.code)\<close>.\<close>

definition uniqueByCode :: "Airport list \<Rightarrow> Airport list" where
  "uniqueByCode self =
     map snd (filter (\<lambda>(index, suggestion).
                 int index = findIndex (\<lambda>s. code s = code suggestion) self)
              (enumerate 0 self))"

text \<open>The \<^verbatim>\<open>try\<close> block of \<^verbatim>\<open>getAirportSuggestions\<close>.\<close>

definition locationsLive :: "env \<Rightarrow> jsString \<Rightarrow> state \<Rightarrow> (error + payload) \<times> state" where
  "locationsLive e cacheKey st =
     (let st1 = recordCall e st;
          tk = getAmadeusToken e st1
      in case fst tk of
           Inl err \<Rightarrow> (Inl err, snd tk)
         | Inr token \<Rightarrow>
             (let st2 = (snd tk)\<lparr>trace := trace (snd tk) @ [HttpRequest Locations]\<rparr>
              in case locationsResponse e of
                   Rejected status \<Rightarrow> (Inl (AxiosError status), st2)
                 | Fulfilled None \<Rightarrow> (Inr (PAirports []), st2)
                 | Fulfilled (Some locs) \<Rightarrow>
                     if None \<in> set locs then (Inl TypeError, st2)
                     else (let suggestions =
                                 take 8 (uniqueByCode (map toSuggestion
                                   (filter (\<lambda>l. truthyString (iataCode l) \<and> truthyString (loc_name l))
                                      (map the locs))))
                           in (Inr (PAirports suggestions),
                               cacheSet e cacheKey (PAirports suggestions) 168 st2))))"

definition getAirportSuggestions ::
  "env \<Rightarrow> jsString \<Rightarrow> state \<Rightarrow> (error + payload) \<times> state" where
  "getAirportSuggestions e query st =
     (if query = [] \<or> length query < 2 then (Inr (PAirports []), st)
      else
        (let cacheKey = js ''airports_'' @ toLowerCase e query;
             c = cacheGet e cacheKey st
         in if isHit (fst c) then (Inr (hitValue (fst c)), snd c)
            else if MOCK_MODE e
            then (Inr (PAirports (getMockAirportSuggestions (toLowerCase e) query)), snd c)
            else (let chk = canMakeCall e (snd c)
                  in if \<not> allowed (fst chk)
                     then (Inr (PAirports (getMockAirportSuggestions (toLowerCase e) query)), snd chk)
                     else (let r = locationsLive e cacheKey (snd chk)
                           in case fst r of
                                Inr p \<Rightarrow> r
                              | Inl (AxiosError status) \<Rightarrow>
                                  (Inr (PAirports (getMockAirportSuggestions (toLowerCase e)
                                                     query)), snd r)
                              | Inl err \<Rightarrow> (Inl err, snd r)))))"

subsection \<open>Cache management\<close>

definition clearCache :: "env \<Rightarrow> state \<Rightarrow> state" where
  "clearCache e st =
     (let r = APIRateLimiter_resetDailyCount (Date_now e)
                (limiter st, APICacheManager_clearAll (storage st))
      in st\<lparr>storage := snd r, limiter := fst r, tokenInfo := None\<rparr>)"

section \<open>Predicates of the properties\<close>

text \<open>\<^verbatim>\<open>Math.random()\<close> returns a number of the interval from 0 up to, not including, 1.\<close>

definition unitRandom :: "rng \<Rightarrow> bool" where
  "unitRandom g = (\<forall>i. 0 \<le> g i \<and> g i < 1)"

text \<open>A list of airport suggestions: at most 8 of them, no code twice.\<close>

definition suggestionsOK :: "payload \<Rightarrow> bool" where
  "suggestionsOK p = (case p of PAirports xs \<Rightarrow> length xs \<le> 8 \<and> distinct (map code xs) | _ \<Rightarrow> False)"

text \<open>Every record that the store holds under an airport-suggestion key is such a list.\<close>

definition airportCacheOK :: "payload localStorage \<Rightarrow> bool" where
  "airportCacheOK ls =
     (\<forall>q c. getItem ls (CACHE_PREFIX @ js ''airports_'' @ q) = Some (CacheJSON c) \<longrightarrow>
        suggestionsOK (data c))"

text \<open>An event is an HTTP request.\<close>

definition isRequest :: "event \<Rightarrow> bool" where
  "isRequest ev = (case ev of HttpRequest ep \<Rightarrow> True | CallRecorded a b \<Rightarrow> False)"

text \<open>A base price that \<^verbatim>\<open>||\<close> keeps, and that is at least two thirds.\<close>

definition roundsPositive :: "rat option \<Rightarrow> bool" where
  "roundsPositive basePrice = (case basePrice of None \<Rightarrow> True | Some v \<Rightarrow> v = 0 \<or> 2 / 3 \<le> v)"

text \<open>The cached token may be used: there is one and the clock is before its expiry.\<close>

definition tokenFresh :: "env \<Rightarrow> state \<Rightarrow> bool" where
  "tokenFresh e st = (case tokenInfo st of Some ti \<Rightarrow> Date_now e < expiresAt ti | None \<Rightarrow> False)"

text \<open>
  The price of a flight is the base price \<open>b\<close> times a variation of at least 0.75 and
  less than 1.25, rounded.
\<close>

definition biasedBy :: "rat \<Rightarrow> Flight \<Rightarrow> bool" where
  "biasedBy b f = (\<exists>v. 3 / 4 \<le> v \<and> v < 5 / 4 \<and> price f = Math_round (b * v))"

text \<open>
  \<^verbatim>\<open>getAmadeusToken\<close> will return a token: the cached one may be used, or the exchange
  grants one.
\<close>

definition tokenAvailable :: "env \<Rightarrow> state \<Rightarrow> bool" where
  "tokenAvailable e st =
     (tokenFresh e st \<or>
      (case tokenResponse e of
         Fulfilled r \<Rightarrow> truthyString (access_token r)
       | Rejected status \<Rightarrow> False))"

text \<open>The events of a price lookup: recorded calls, token and flight-dates requests.\<close>

definition priceEvent :: "event \<Rightarrow> bool" where
  "priceEvent ev = (ev \<noteq> HttpRequest FlightOffers \<and> ev \<noteq> HttpRequest FlightDestinations
                    \<and> ev \<noteq> HttpRequest Locations)"

text \<open>
  An operation takes the live path for the cache key \<open>key\<close>: live mode, nothing usable
  in the cache, and the quota check allows the call.
\<close>

definition admittedLive :: "env \<Rightarrow> jsString \<Rightarrow> state \<Rightarrow> bool" where
  "admittedLive e key st =
     (\<not> MOCK_MODE e \<and> \<not> isHit (fst (cacheGet e key st))
      \<and> allowed (fst (APIRateLimiter_canMakeCall (limiter st) (Date_now e))))"

text \<open>
  From \<open>st\<close> to \<open>st'\<close> one unit of quota was consumed: both counters are one above their
  values after the window check, the recording is the first new event and only HTTP
  requests follow it, and a writable store holds the new counters.
\<close>

definition quotaConsumed :: "env \<Rightarrow> state \<Rightarrow> state \<Rightarrow> bool" where
  "quotaConsumed e st st' =
     (let rl1 = windowReset (limiter st) (Date_now e)
      in limiter st' = rl1\<lparr>callsToday := callsToday rl1 + 1,
                             callsThisMinute := callsThisMinute rl1 + 1\<rparr>
         \<and> (\<exists>rest. trace st' =
                trace st @ CallRecorded (callsToday rl1 + 1) (callsThisMinute rl1 + 1) # rest
              \<and> list_all isRequest rest)
         \<and> (writable (storage st) \<longrightarrow>
              getItem (storage st') STORAGE_KEY =
                Some (CallsJSON \<lparr>saved_callsToday = callsToday rl1 + 1,
                                 saved_callsThisMinute = callsThisMinute rl1 + 1,
                                 saved_minuteStart = minuteStart rl1,
                                 saved_date = toDateString e\<rparr>)))"

text \<open>
  From \<open>st\<close> to \<open>st'\<close> no counter went down, but for the per-minute counter when the
  window had run out.
\<close>

definition neverDecremented :: "env \<Rightarrow> state \<Rightarrow> state \<Rightarrow> bool" where
  "neverDecremented e st st' =
     (callsToday (limiter st) \<le> callsToday (limiter st')
      \<and> (Date_now e - minuteStart (limiter st) \<le> 60000 \<longrightarrow>
           callsThisMinute (limiter st) \<le> callsThisMinute (limiter st')))"

text \<open>What a live attempt leaves of the state that \<^verbatim>\<open>recordCall\<close> made.\<close>

definition afterRecord :: "state \<Rightarrow> state \<Rightarrow> bool" where
  "afterRecord st1 st' =
     (limiter st' = limiter st1
      \<and> getItem (storage st') STORAGE_KEY = getItem (storage st1) STORAGE_KEY
      \<and> (\<exists>rest. trace st' = trace st1 @ rest \<and> list_all isRequest rest))"

text \<open>The counters after an operation: as before, after the window check, or one above that.\<close>

definition limiterStep :: "env \<Rightarrow> state \<Rightarrow> state \<Rightarrow> bool" where
  "limiterStep e st st' =
     (limiter st' = limiter st
      \<or> limiter st' = windowReset (limiter st) (Date_now e)
      \<or> limiter st' = (windowReset (limiter st) (Date_now e))
            \<lparr>callsToday := callsToday (windowReset (limiter st) (Date_now e)) + 1,
             callsThisMinute := callsThisMinute (windowReset (limiter st) (Date_now e)) + 1\<rparr>)"

section \<open>Sample inputs\<close>

definition route :: SearchParams where
  "route = \<lparr>origin = js ''JFK'', destination = js ''LAX'', departureDate = DateAt 1793577600000,
            returnDate = None, passengers = \<lparr>adults = 1, children = 0, infants = 0\<rparr>\<rparr>"

text \<open>
  Lower-casing of the ASCII capitals; it is what \<^verbatim>\<open>toLowerCase\<close> does on every text of the
  samples, which hold no other cased character.
\<close>

definition asciiLower :: "jsString \<Rightarrow> jsString" where
  "asciiLower s = map (\<lambda>u. if 65 \<le> u \<and> u \<le> 90 then u + 32 else u) s"

text \<open>
  Live mode at time 1000: the upstream grants a token for 600 seconds, prices one date
  of the route at 0.40, and knows no location; every random draw is 0.
\<close>

definition sampleEnv :: env where
  "sampleEnv =
     \<lparr>MOCK_MODE = False, Date_now = 1000, toDateString = js ''Mon Nov 02 2026'',
      isoDateAfter = (\<lambda>i. (js ''2026-11-0'') @ toString (int i + 2)),
      dateValue = (\<lambda>s. 0),
      random = (\<lambda>i. 0),
      toLowerCase = asciiLower,
      tokenResponse = Fulfilled \<lparr>access_token = Some (js ''token''), expires_in = 600\<rparr>,
      inspirationResponse = Fulfilled PNull,
      datesResponse = Fulfilled (Some [Some \<lparr>item_departureDate = js ''2026-11-10'',
                                              item_total = Some (2 / 5)\<rparr>]),
      locationsResponse = Fulfilled (Some [])\<rparr>"

text \<open>The state of a freshly loaded page over an empty store.\<close>

definition freshState :: state where
  "freshState =
     \<lparr>storage = \<lparr>items = Map.empty, writable = True\<rparr>,
      limiter = \<lparr>callsToday = 0, callsThisMinute = 0, minuteStart = 0\<rparr>,
      tokenInfo = None, drawn = 0, trace = []\<rparr>"

text \<open>A search of the sample route whose departure date is the Invalid Date.\<close>

definition undatedRoute :: SearchParams where
  "undatedRoute = route\<lparr>departureDate := InvalidDate\<rparr>"

text \<open>The sample world with a credential exchange that is rejected with status 401.\<close>

definition deniedEnv :: env where
  "deniedEnv = sampleEnv\<lparr>tokenResponse := Rejected (Some 401)\<rparr>"

text \<open>
  Sample worlds for the airport suggestions: a live one whose location search knows
  one airport, and the offline mode.
\<close>

definition liveAirportsEnv :: env where
  "liveAirportsEnv =
     sampleEnv\<lparr>locationsResponse :=
       Fulfilled (Some [Some \<lparr>iataCode = Some (js ''JFK''), loc_name = Some (js ''JOHN F KENNEDY INTL''),
                               cityName = Some (js ''NEW YORK'')\<rparr>])\<rparr>"

definition offlineEnv :: env where
  "offlineEnv = sampleEnv\<lparr>MOCK_MODE := True\<rparr>"

section \<open>Cache round trip and expiry\<close>

text \<open>
  Claim C3. Once \<^verbatim>\<open>set(key, v, ttlHours)\<close> has stored its record at time \<open>t0\<close>, a
  \<^verbatim>\<open>get(key)\<close> at time \<open>t1\<close> returns \<open>v\<close> and leaves the store alone exactly when
  the elapsed \<open>t1 - t0\<close> is at most \<open>ttlHours\<close> in milliseconds; otherwise it returns
  \<^verbatim>\<open>null\<close> and the key is gone from the store.
\<close>

theorem cache_get_after_set:
  assumes "writable ls"
  shows "APICacheManager_get (APICacheManager_set ls t0 key v ttlHours) t1 key =
           (if of_int (t1 - t0) \<le> ttlHours * 3600000
            then (Some v, APICacheManager_set ls t0 key v ttlHours)
            else (None, removeItem (APICacheManager_set ls t0 key v ttlHours) (CACHE_PREFIX @ key)))
         \<and> getItem (removeItem (APICacheManager_set ls t0 key v ttlHours) (CACHE_PREFIX @ key))
             (CACHE_PREFIX @ key) = None"
  using assms
  by (simp add: APICacheManager_get_def APICacheManager_set_def setItem_def getItem_def
      removeItem_def not_less)

theorem cache_get_after_set_witness:
  "APICacheManager_get
     (APICacheManager_set \<lparr>items = Map.empty, writable = True\<rparr> 0 (js ''k'') (7::nat) 24) 86400000 (js ''k'')
     = (Some 7, APICacheManager_set \<lparr>items = Map.empty, writable = True\<rparr> 0 (js ''k'') 7 24)
   \<and> fst (APICacheManager_get
     (APICacheManager_set \<lparr>items = Map.empty, writable = True\<rparr> 0 (js ''k'') (7::nat) 24) 86400001 (js ''k''))
     = None"
  using cache_get_after_set [of "\<lparr>items = Map.empty, writable = True\<rparr>" 0 "js ''k''" "7::nat" 24 86400000]
    cache_get_after_set [of "\<lparr>items = Map.empty, writable = True\<rparr>" 0 "js ''k''" "7::nat" 24 86400001]
  by simp


section \<open>The quota tracker\<close>

lemma canMakeCall_snd: "snd (APIRateLimiter_canMakeCall rl t) = windowReset rl t"
  by (simp add: APIRateLimiter_canMakeCall_def windowReset_def Let_def)

lemma canMakeCall_allowed:
  "allowed (fst (APIRateLimiter_canMakeCall rl t)) =
     (callsThisMinute (windowReset rl t) < 10 \<and> callsToday (windowReset rl t) < 39)"
  by (simp add: APIRateLimiter_canMakeCall_def windowReset_def Let_def
      MAX_CALLS_PER_MINUTE_def MAX_CALLS_PER_DAY_def not_le)

lemma recordCall_fst:
  "fst (APIRateLimiter_recordCall day s) =
     (fst s)\<lparr>callsToday := callsToday (fst s) + 1, callsThisMinute := callsThisMinute (fst s) + 1\<rparr>"
  by (simp add: APIRateLimiter_recordCall_def Let_def)

lemma admit_fst:
  "fst (admit day t s) =
     (callsThisMinute (windowReset (fst s) t) < 10 \<and> callsToday (windowReset (fst s) t) < 39)"
  by (simp add: admit_def Let_def canMakeCall_allowed)

lemma admit_limiter:
  "fst (snd (admit day t s)) =
     (if fst (admit day t s)
      then (windowReset (fst s) t)\<lparr>callsToday := callsToday (windowReset (fst s) t) + 1,
             callsThisMinute := callsThisMinute (windowReset (fst s) t) + 1\<rparr>
      else windowReset (fst s) t)"
  by (simp add: admit_def Let_def canMakeCall_allowed canMakeCall_snd recordCall_fst)

lemma windowRoom_step_admitted:
  assumes "fst (admit day t s)"
  shows "(if minuteStart (fst (snd (admit day t s))) = w then 1 else 0)
           + windowRoom (fst (snd (admit day t s))) w \<le> windowRoom (fst s) w"
  using assms unfolding admit_limiter admit_fst
  by (auto simp add: windowRoom_def windowReset_def split: if_splits)

lemma windowRoom_step_denied:
  assumes "\<not> fst (admit day t s)"
  shows "windowRoom (fst (snd (admit day t s))) w \<le> windowRoom (fst s) w"
  using assms unfolding admit_limiter admit_fst
  by (auto simp add: windowRoom_def windowReset_def split: if_splits)

lemma window_count_room:
  "length (filter (inWindow w) (admitted day s ts)) \<le> windowRoom (fst s) w"
proof (induction ts arbitrary: s)
  case Nil
  then show ?case by simp
next
  case (Cons t ts)
  let ?r = "admit day t s"
  have ih: "length (filter (inWindow w) (admitted day (snd ?r) ts)) \<le> windowRoom (fst (snd ?r)) w"
    by (rule Cons.IH)
  show ?case
  proof (cases "fst ?r")
    case True
    from windowRoom_step_admitted [OF True, of w] ih show ?thesis
      using True unfolding inWindow_def by (auto simp add: Let_def)
  next
    case False
    from windowRoom_step_denied [OF False, of w] ih show ?thesis
      using False by (simp add: Let_def)
  qed
qed

lemma windowRoom_le: "windowRoom rl w \<le> 10"
  by (simp add: windowRoom_def)

lemma day_step:
  "(if fst (admit day t s) then 1 else 0) + (39 - callsToday (fst (snd (admit day t s))))
     \<le> 39 - callsToday (fst s)"
  unfolding admit_limiter admit_fst
  by (auto simp add: windowReset_def split: if_splits)

lemma day_count_room: "length (admitted day s ts) \<le> 39 - callsToday (fst s)"
proof (induction ts arbitrary: s)
  case Nil
  then show ?case by simp
next
  case (Cons t ts)
  let ?r = "admit day t s"
  have ih: "length (admitted day (snd ?r) ts) \<le> 39 - callsToday (fst (snd ?r))"
    by (rule Cons.IH)
  from day_step [of day t s] ih show ?case
    by (auto simp add: Let_def split: if_splits)
qed

lemma admitted_step:
  "admitted day (rl, ls) (t # ts) =
     (if callsThisMinute (windowReset rl t) < 10 \<and> callsToday (windowReset rl t) < 39
      then (t, minuteStart (windowReset rl t)) #
           admitted day
             ((windowReset rl t)\<lparr>callsToday := callsToday (windowReset rl t) + 1,
                callsThisMinute := callsThisMinute (windowReset rl t) + 1\<rparr>,
              snd (APIRateLimiter_recordCall day (windowReset rl t, ls))) ts
      else admitted day (windowReset rl t, ls) ts)"
proof -
  have "((windowReset rl t)\<lparr>callsToday := callsToday (windowReset rl t) + 1,
                callsThisMinute := callsThisMinute (windowReset rl t) + 1\<rparr>,
       snd (APIRateLimiter_recordCall day (windowReset rl t, ls))) =
      APIRateLimiter_recordCall day (windowReset rl t, ls)"
    by (simp add: prod_eq_iff recordCall_fst)
  then show ?thesis
    by (simp add: admit_def Let_def canMakeCall_allowed canMakeCall_snd recordCall_fst)
qed

lemma admitted_late: "list_all (\<lambda>c. fst c - snd c \<le> 60000) (admitted day s ts)"
proof (induction ts arbitrary: s)
  case Nil
  then show ?case by simp
next
  case (Cons t ts)
  have "fst (admit day t s) \<Longrightarrow> t - minuteStart (fst (snd (admit day t s))) \<le> 60000"
    unfolding admit_limiter by (simp add: windowReset_def)
  with Cons.IH [of "snd (admit day t s)"] show ?case
    by (simp add: Let_def)
qed

text \<open>
  Claim C2, as the tracker keeps it. Among the calls admitted by any sequence of
  checks, each followed by \<^verbatim>\<open>recordCall\<close> exactly when it allowed the call, at most 10
  are counted under one and the same window start \<open>w\<close>, each of them at most 60000 ms
  after \<open>w\<close>, and at most 39 less the calls already counted today are admitted in all.
  \<^verbatim>\<open>canMakeCall\<close> at time \<open>t\<close> first starts a new window at \<open>t\<close> when \<open>t\<close> is more than
  60000 ms after the window start, then denies with the wait in seconds when 10 calls
  are counted in the window, then denies when 39 calls are counted today, and else
  allows with \<open>callsLeft\<close> 39 less the calls of today.
\<close>

theorem tracker_window_and_day_ceilings:
  "length (filter (inWindow w) (admitted day s ts)) \<le> 10
   \<and> list_all (\<lambda>c. fst c - snd c \<le> 60000) (admitted day s ts)
   \<and> length (admitted day s ts) \<le> 39 - callsToday (fst s)
   \<and> snd (APIRateLimiter_canMakeCall rl t) =
       (if t - minuteStart rl > 60000 then rl\<lparr>callsThisMinute := 0, minuteStart := t\<rparr> else rl)
   \<and> fst (APIRateLimiter_canMakeCall rl t) =
       (if callsThisMinute (snd (APIRateLimiter_canMakeCall rl t)) \<ge> 10
        then \<lparr>allowed = False,
              reason = Some (RateLimitWait
                \<lceil>rat_of_int (60000 - (t - minuteStart (snd (APIRateLimiter_canMakeCall rl t)))) / 1000\<rceil>),
              callsLeft = 0\<rparr>
        else if callsToday rl \<ge> 39
        then \<lparr>allowed = False, reason = Some DailyQuotaExceeded, callsLeft = 0\<rparr>
        else \<lparr>allowed = True, reason = None, callsLeft = 39 - int (callsToday rl)\<rparr>)"
proof -
  have a: "length (filter (inWindow w) (admitted day s ts)) \<le> 10"
    using window_count_room [of w day s ts] windowRoom_le [of "fst s" w] by (rule order_trans)
  have b: "snd (APIRateLimiter_canMakeCall rl t) =
       (if t - minuteStart rl > 60000 then rl\<lparr>callsThisMinute := 0, minuteStart := t\<rparr> else rl)"
    by (simp add: canMakeCall_snd windowReset_def)
  have c: "fst (APIRateLimiter_canMakeCall rl t) =
       (if callsThisMinute (snd (APIRateLimiter_canMakeCall rl t)) \<ge> 10
        then \<lparr>allowed = False,
              reason = Some (RateLimitWait
                \<lceil>rat_of_int (60000 - (t - minuteStart (snd (APIRateLimiter_canMakeCall rl t)))) / 1000\<rceil>),
              callsLeft = 0\<rparr>
        else if callsToday rl \<ge> 39
        then \<lparr>allowed = False, reason = Some DailyQuotaExceeded, callsLeft = 0\<rparr>
        else \<lparr>allowed = True, reason = None, callsLeft = 39 - int (callsToday rl)\<rparr>)"
    unfolding canMakeCall_snd
    by (simp add: APIRateLimiter_canMakeCall_def windowReset_def Let_def Math_ceil_def
        MAX_CALLS_PER_MINUTE_def MAX_CALLS_PER_DAY_def)
  from a admitted_late [of day s ts] day_count_room [of day s ts] b c show ?thesis
    by (intro conjI)
qed

text \<open>
  Claim C2 as stated fails for a window that rolls: a fresh tracker that is asked ten
  times at 60000 ms and ten times at 60001 ms admits all twenty calls, so twenty
  admitted calls lie in the 60000 ms from 60000 on.
\<close>

theorem tracker_rolling_window_counterexample:
  "\<not> length (filter (between 60000 120000) (admitted (js ''Mon Nov 02 2026'') freshTracker
       [60000, 60000, 60000, 60000, 60000, 60000, 60000, 60000, 60000, 60000,
        60001, 60001, 60001, 60001, 60001, 60001, 60001, 60001, 60001, 60001])) \<le> 10"
  by (simp add: freshTracker_def admitted_step windowReset_def between_def del: admitted.simps(2))


section \<open>Synthesized flights\<close>

lemma mockFlight_stops: "stops (fst (mockFlight g t params b i k)) \<le> 2"
  by (simp add: mockFlight_def Let_def)

lemma mockFlight_duration:
  assumes "unitRandom g"
  shows "90 \<le> duration (fst (mockFlight g t params b i k))"
proof -
  have g0: "\<And>j. 0 \<le> g j" using assms by (simp add: unitRandom_def)
  have "\<And>j (n::nat). rat_of_int 90 \<le> 90 + g j * 300 + of_nat n * 120 + 1 / 2"
  proof -
    fix j and n :: nat
    have "0 \<le> g j * 300" using g0 [of j] by simp
    moreover have "(0::rat) \<le> of_nat n * 120" by simp
    ultimately show "rat_of_int 90 \<le> 90 + g j * 300 + of_nat n * 120 + 1 / 2" by simp
  qed
  then have "\<And>j (n::nat). 90 \<le> Math_round (90 + g j * 300 + of_nat n * 120)"
    unfolding Math_round_def le_floor_iff .
  then show ?thesis
    by (simp add: mockFlight_def Let_def calculateRealisticDuration_def)
qed

lemma round_positive:
  assumes "1 / 2 \<le> (x::rat)"
  shows "0 < Math_round x"
proof -
  have "rat_of_int 1 \<le> x + 1 / 2" using assms by simp
  then have "1 \<le> Math_round x" unfolding Math_round_def le_floor_iff .
  then show ?thesis by simp
qed

lemma mockFlight_price:
  assumes "unitRandom g" and "2 / 3 \<le> b"
  shows "0 < price (fst (mockFlight g t params b i k))"
proof -
  have g0: "\<And>j. 0 \<le> g j" using assms by (simp add: unitRandom_def)
  have "\<And>j. 1 / 2 \<le> b * (75 / 100 + g j * (5 / 10))"
  proof -
    fix j
    have "(3::rat) / 4 \<le> 75 / 100 + g j * (5 / 10)" using g0 [of j] by simp
    moreover have "0 \<le> b" using assms(2) by simp
    ultimately have m: "b * (3 / 4) \<le> b * (75 / 100 + g j * (5 / 10))"
      by (rule mult_left_mono)
    have h: "1 / 2 \<le> b * (3 / 4)" using assms(2) by simp
    from h m show "1 / 2 \<le> b * (75 / 100 + g j * (5 / 10))" by (rule order_trans)
  qed
  then have "\<And>j. 0 < Math_round (b * (75 / 100 + g j * (5 / 10)))"
    by (rule round_positive)
  then show ?thesis
    by (simp add: mockFlight_def Let_def)
qed

lemma flightLoop_length: "length (fst (flightLoop g t params b n i k)) = n"
  by (induction n arbitrary: i k) (simp_all add: Let_def)

lemma flightLoop_all:
  assumes "\<And>i k. P (fst (mockFlight g t params b i k))"
  shows "\<forall>f \<in> set (fst (flightLoop g t params b n i k)). P f"
  using assms by (induction n arbitrary: i k) (simp_all add: Let_def)

lemma actualBasePrice_bound:
  assumes "unitRandom g" and "roundsPositive basePrice"
  shows "2 / 3 \<le> fst (case basePrice of
                 Some v \<Rightarrow> if v \<noteq> 0 then (v, k) else (200 + g k * 800, k + 1)
               | None \<Rightarrow> (200 + g k * 800, k + 1))"
proof -
  have "0 \<le> g k * 800" using assms(1) by (simp add: unitRandom_def)
  then have "(2::rat) / 3 \<le> 200 + g k * 800" by simp
  then show ?thesis using assms(2)
    by (auto simp: roundsPositive_def split: option.splits)
qed

lemma flightCount_bounds:
  assumes "unitRandom g"
  shows "12 \<le> nat (12 + Math_floor (g j * 6))" and "nat (12 + Math_floor (g j * 6)) \<le> 17"
proof -
  have a: "0 \<le> g j" and b: "g j < 1" using assms by (simp_all add: unitRandom_def)
  have "rat_of_int 0 \<le> g j * 6" using a by simp
  then have lo: "0 \<le> Math_floor (g j * 6)" unfolding Math_floor_def le_floor_iff .
  have "g j * 6 < rat_of_int 6" using b by simp
  then have hi: "Math_floor (g j * 6) < 6" unfolding Math_floor_def floor_less_iff .
  show "12 \<le> nat (12 + Math_floor (g j * 6))" using lo by simp
  show "nat (12 + Math_floor (g j * 6)) \<le> 17" using hi by simp
qed

lemma generated_length:
  assumes "unitRandom g"
  shows "12 \<le> length (fst (generateEnhancedMockFlights g t params basePrice k))"
    and "length (fst (generateEnhancedMockFlights g t params basePrice k)) \<le> 17"
  using flightCount_bounds [OF assms]
  by (simp_all add: generateEnhancedMockFlights_def Let_def flightLoop_length)

lemma generated_sorted:
  "sorted (map price (fst (generateEnhancedMockFlights g t params basePrice k)))"
  by (simp add: generateEnhancedMockFlights_def Let_def)

lemma generated_all:
  assumes "\<And>b i j. P (fst (mockFlight g t params b i j))"
  shows "\<forall>f \<in> set (fst (generateEnhancedMockFlights g t params basePrice k)). P f"
  using flightLoop_all [of P g t params, OF assms]
  by (simp add: generateEnhancedMockFlights_def Let_def)

lemma generated_price:
  assumes "unitRandom g" and "roundsPositive basePrice"
  shows "\<forall>f \<in> set (fst (generateEnhancedMockFlights g t params basePrice k)). 0 < price f"
proof -
  let ?b = "fst (case basePrice of
                 Some v \<Rightarrow> if v \<noteq> 0 then (v, k) else (200 + g k * 800, k + 1)
               | None \<Rightarrow> (200 + g k * 800, k + 1))"
  have "\<And>i j. 0 < price (fst (mockFlight g t params ?b i j))"
    using mockFlight_price [OF assms(1) actualBasePrice_bound [OF assms]] .
  from flightLoop_all [of "\<lambda>f. 0 < price f" g t params ?b, OF this]
  show ?thesis
    by (simp add: generateEnhancedMockFlights_def Let_def)
qed

text \<open>
  Claim C7, as the generator keeps it. With random draws in the unit interval, every
  list of synthesized flights is sorted ascending by price and has 12 to 17 records,
  and every record has a duration of at least 0 and 0, 1 or 2 stops. Every price is
  positive when the base price is absent, zero (which is replaced by a random base)
  or at least two thirds.
\<close>

theorem synthesized_flights_shape:
  assumes "unitRandom g"
  shows "sorted (map price (fst (generateEnhancedMockFlights g t params basePrice k)))
       \<and> 12 \<le> length (fst (generateEnhancedMockFlights g t params basePrice k))
       \<and> length (fst (generateEnhancedMockFlights g t params basePrice k)) \<le> 17
       \<and> (\<forall>f \<in> set (fst (generateEnhancedMockFlights g t params basePrice k)).
             0 \<le> duration f \<and> stops f \<in> {0, 1, 2})
       \<and> (roundsPositive basePrice \<longrightarrow>
            (\<forall>f \<in> set (fst (generateEnhancedMockFlights g t params basePrice k)). 0 < price f))"
proof -
  have d: "\<And>b i j. 0 \<le> duration (fst (mockFlight g t params b i j))
                   \<and> stops (fst (mockFlight g t params b i j)) \<in> {0, 1, 2}"
  proof -
    fix b i j
    have "90 \<le> duration (fst (mockFlight g t params b i j))"
      by (rule mockFlight_duration [OF assms])
    moreover have "stops (fst (mockFlight g t params b i j)) \<le> 2"
      by (rule mockFlight_stops)
    ultimately show "0 \<le> duration (fst (mockFlight g t params b i j))
                   \<and> stops (fst (mockFlight g t params b i j)) \<in> {0, 1, 2}"
      by auto
  qed
  have e: "\<forall>f \<in> set (fst (generateEnhancedMockFlights g t params basePrice k)).
             0 \<le> duration f \<and> stops f \<in> {0, 1, 2}"
    by (rule generated_all [of "\<lambda>f. 0 \<le> duration f \<and> stops f \<in> {0, 1, 2}", OF d])
  show ?thesis
    using generated_sorted [of g t params basePrice k] generated_length [OF assms, of t params basePrice k]
      e generated_price [OF assms, of basePrice t params k]
    by blast
qed

theorem synthesized_flights_shape_witness:
  "unitRandom (random sampleEnv) \<and> roundsPositive None
   \<and> sorted (map price (fst (generateEnhancedMockFlights (random sampleEnv) 1000 route None 0)))
   \<and> 12 \<le> length (fst (generateEnhancedMockFlights (random sampleEnv) 1000 route None 0))
   \<and> list_all (\<lambda>f. 0 \<le> duration f \<and> stops f \<le> 2 \<and> 0 < price f)
        (fst (generateEnhancedMockFlights (random sampleEnv) 1000 route None 0))"
proof -
  have u: "unitRandom (random sampleEnv)" by (simp add: unitRandom_def sampleEnv_def)
  have r: "roundsPositive None" by (simp add: roundsPositive_def)
  from synthesized_flights_shape [OF u, of 1000 route None 0] u r show ?thesis
    unfolding list_all_iff by auto
qed

text \<open>
  Claim C7 as stated fails for a small base price: when the cheapest-dates answer
  prices the route at 0.40, \<^verbatim>\<open>searchFlights\<close> hands the average 0.40 to the generator,
  and every synthesized flight costs \<^verbatim>\<open>Math.round(0.4 * 0.75)\<close>, which is 0.
\<close>

theorem synthesized_price_counterexample:
  "unitRandom (random sampleEnv)
   \<and> map_sum id (map price) (fst (searchFlights sampleEnv route freshState))
       = Inr [0, 0, 0, 0, 0, 0, 0, 0, 0, 0, 0, 0]
   \<and> price (hd (fst (generateEnhancedMockFlights (random sampleEnv) 1000 route (Some (2 / 5)) 0))) = 0"
proof -
  have u: "unitRandom (random sampleEnv)" by (simp add: unitRandom_def sampleEnv_def)
  have a: "map_sum id (map price) (fst (searchFlights sampleEnv route freshState))
       = Inr [0, 0, 0, 0, 0, 0, 0, 0, 0, 0, 0, 0]"
    by code_simp
  have b: "price (hd (fst (generateEnhancedMockFlights (random sampleEnv) 1000 route (Some (2 / 5)) 0))) = 0"
    by code_simp
  from u a b show ?thesis by (intro conjI)
qed



section \<open>Arrival times\<close>

text \<open>
  Claim C8 at a failing input. With every random draw 0 the first synthesized flight
  departs at 06:30 and lasts 90 minutes, and its arrival time is 07:30, that is minute
  450 of the day, where departure plus duration is minute 480:
  \<^verbatim>\<open>calculateArrivalTime\<close> is given the departure hour only, and the half hour that the
  departure text gets is not added.
\<close>

theorem arrival_ignores_half_hour:
  "map_sum id (\<lambda>fs. departureTime (hd fs)) (fst (searchFlights sampleEnv route freshState))
       = Inr (js ''06:30'')
   \<and> map_sum id (\<lambda>fs. duration (hd fs)) (fst (searchFlights sampleEnv route freshState)) = Inr 90
   \<and> map_sum id (\<lambda>fs. arrivalTime (hd fs)) (fst (searchFlights sampleEnv route freshState))
       = Inr (js ''07:30'')
   \<and> map_sum id (\<lambda>fs. minutesOfDay (arrivalTime (hd fs)))
         (fst (searchFlights sampleEnv route freshState)) = Inr (Some 450)
   \<and> map_sum id (\<lambda>fs. map_option (\<lambda>m. (m + duration (hd fs)) mod 1440)
                           (minutesOfDay (departureTime (hd fs))))
         (fst (searchFlights sampleEnv route freshState)) = Inr (Some 480)"
  by code_simp

section \<open>Errors that reach the caller\<close>

text \<open>
  Claim C1 at failing inputs. In live mode, on a cache miss and with quota left, a
  rejected credential exchange makes \<^verbatim>\<open>getFlightCheapestDates\<close>, \<^verbatim>\<open>getPriceTrends\<close>,
  \<^verbatim>\<open>getFlightInspiration\<close> and \<^verbatim>\<open>getAirportSuggestions\<close> throw the authentication error to
  the caller, and a \<^verbatim>\<open>null\<close> element in the flight-dates answer makes
  \<^verbatim>\<open>getFlightCheapestDates\<close> throw a type error: their \<^verbatim>\<open>catch\<close> blocks fall back to mock
  data for axios errors only and throw every other error again.
\<close>

theorem authentication_failure_propagates:
  "fst (getFlightCheapestDates (sampleEnv\<lparr>tokenResponse := Rejected (Some 401)\<rparr>)
          (js ''JFK'') (js ''LAX'') False freshState) = Inl authFailed
   \<and> fst (getPriceTrends (sampleEnv\<lparr>tokenResponse := Rejected (Some 401)\<rparr>) route freshState)
       = Inl authFailed
   \<and> fst (getFlightInspiration (sampleEnv\<lparr>tokenResponse := Rejected (Some 401)\<rparr>)
          (js ''JFK'') 1000 False freshState) = Inl authFailed
   \<and> fst (getAirportSuggestions (sampleEnv\<lparr>tokenResponse := Rejected (Some 401)\<rparr>)
          (js ''JF'') freshState) = Inl authFailed
   \<and> fst (getFlightCheapestDates (sampleEnv\<lparr>datesResponse := Fulfilled (Some [None])\<rparr>)
          (js ''JFK'') (js ''LAX'') False freshState) = Inl TypeError"
  by code_simp

section \<open>The token\<close>

lemma exchangeToken_trace:
  "trace (snd (exchangeToken e st)) = trace st @ [HttpRequest OAuth2Token]"
  by (simp add: exchangeToken_def Let_def split: outcome.splits option.splits)

text \<open>
  Claim C6, as the token manager keeps it. \<^verbatim>\<open>getAmadeusToken\<close> returns the cached token,
  with no request, when there is one and the clock is strictly before its expiry. In
  every other case, so for a token whose expiry has passed, it makes the credential
  exchange: a token that the answer grants is returned and stored with the expiry 25
  minutes (1500000 ms) after now, whatever lifetime the answer grants; an exchange
  that grants none fails with the authentication error and stores nothing.
\<close>

theorem token_reuse_and_refresh:
  "(tokenFresh e st \<longrightarrow>
      getAmadeusToken e st = (Inr (accessToken (the (tokenInfo st))), st))
   \<and> (\<not> tokenFresh e st \<longrightarrow>
        trace (snd (getAmadeusToken e st)) = trace st @ [HttpRequest OAuth2Token]
        \<and> (\<forall>r tok. tokenResponse e = Fulfilled r \<and> access_token r = Some tok \<and> tok \<noteq> [] \<longrightarrow>
              fst (getAmadeusToken e st) = Inr tok
              \<and> tokenInfo (snd (getAmadeusToken e st)) =
                  Some \<lparr>accessToken = tok, expiresAt = Date_now e + 1500000\<rparr>)
        \<and> ((\<forall>r tok. tokenResponse e = Fulfilled r \<and> access_token r = Some tok \<longrightarrow> tok = []) \<longrightarrow>
              fst (getAmadeusToken e st) = Inl authFailed
              \<and> tokenInfo (snd (getAmadeusToken e st)) = tokenInfo st))"
proof -
  have a: "tokenFresh e st \<Longrightarrow>
      getAmadeusToken e st = (Inr (accessToken (the (tokenInfo st))), st)"
    by (simp add: tokenFresh_def getAmadeusToken_def split: option.splits)
  have b: "\<not> tokenFresh e st \<Longrightarrow> getAmadeusToken e st = exchangeToken e st"
    by (simp add: tokenFresh_def getAmadeusToken_def split: option.splits)
  have c: "\<And>r tok. tokenResponse e = Fulfilled r \<Longrightarrow> access_token r = Some tok \<Longrightarrow> tok \<noteq> [] \<Longrightarrow>
              fst (exchangeToken e st) = Inr tok
              \<and> tokenInfo (snd (exchangeToken e st)) =
                  Some \<lparr>accessToken = tok, expiresAt = Date_now e + 1500000\<rparr>"
    by (simp add: exchangeToken_def Let_def)
  have d: "(\<forall>r tok. tokenResponse e = Fulfilled r \<and> access_token r = Some tok \<longrightarrow> tok = []) \<Longrightarrow>
              fst (exchangeToken e st) = Inl authFailed
              \<and> tokenInfo (snd (exchangeToken e st)) = tokenInfo st"
    by (simp add: exchangeToken_def Let_def split: outcome.splits option.splits)
  show ?thesis
    using a b c d exchangeToken_trace [of e st] by auto
qed

theorem token_reuse_and_refresh_witness:
  "\<not> tokenFresh sampleEnv (freshState\<lparr>tokenInfo := Some \<lparr>accessToken = js ''stale'', expiresAt = 999\<rparr>\<rparr>)
   \<and> fst (getAmadeusToken sampleEnv
            (freshState\<lparr>tokenInfo := Some \<lparr>accessToken = js ''stale'', expiresAt = 999\<rparr>\<rparr>)) = Inr (js ''token'')
   \<and> tokenFresh sampleEnv (freshState\<lparr>tokenInfo := Some \<lparr>accessToken = js ''cached'', expiresAt = 1001\<rparr>\<rparr>)
   \<and> fst (getAmadeusToken sampleEnv
            (freshState\<lparr>tokenInfo := Some \<lparr>accessToken = js ''cached'', expiresAt = 1001\<rparr>\<rparr>)) = Inr (js ''cached'')"
  using token_reuse_and_refresh [of sampleEnv "freshState\<lparr>tokenInfo := Some \<lparr>accessToken = js ''stale'', expiresAt = 999\<rparr>\<rparr>"]
    token_reuse_and_refresh [of sampleEnv "freshState\<lparr>tokenInfo := Some \<lparr>accessToken = js ''cached'', expiresAt = 1001\<rparr>\<rparr>"]
  by (simp add: tokenFresh_def sampleEnv_def freshState_def js_def)

text \<open>
  Claim C6 as stated fails for the stored expiry: a token granted for 600 seconds is
  stored with an expiry 1500000 ms after now, after the end of its granted lifetime,
  and a token granted for 1799 seconds gets the same expiry.
\<close>

theorem token_expiry_counterexample:
  "tokenResponse sampleEnv = Fulfilled \<lparr>access_token = Some (js ''token''), expires_in = 600\<rparr>
   \<and> expiresAt (the (tokenInfo (snd (getAmadeusToken sampleEnv freshState)))) = Date_now sampleEnv + 1500000
   \<and> Date_now sampleEnv + 600 * 1000 < expiresAt (the (tokenInfo (snd (getAmadeusToken sampleEnv freshState))))
   \<and> expiresAt (the (tokenInfo (snd (getAmadeusToken
        (sampleEnv\<lparr>tokenResponse := Fulfilled \<lparr>access_token = Some (js ''token''), expires_in = 1799\<rparr>\<rparr>)
        freshState)))) = Date_now sampleEnv + 1500000"
  by (simp add: sampleEnv_def freshState_def getAmadeusToken_def exchangeToken_def js_def)



section \<open>What the helpers leave alone\<close>

lemma useMockFlights_frame:
  "trace (snd (useMockFlights e params bp st)) = trace st"
  "limiter (snd (useMockFlights e params bp st)) = limiter st"
  "storage (snd (useMockFlights e params bp st)) = storage st"
  "tokenInfo (snd (useMockFlights e params bp st)) = tokenInfo st"
  "fst (useMockFlights e params bp st) =
     fst (generateEnhancedMockFlights (random e) (Date_now e) params bp (drawn st))"
  by (simp_all add: useMockFlights_def Let_def)

lemma useMockTrends_frame:
  "trace (snd (useMockTrends e a b st)) = trace st"
  "limiter (snd (useMockTrends e a b st)) = limiter st"
  "storage (snd (useMockTrends e a b st)) = storage st"
  "tokenInfo (snd (useMockTrends e a b st)) = tokenInfo st"
  "fst (useMockTrends e a b st) =
     Inr (PTrends (fst (getMockPriceTrendsForRoute (random e) (isoDateAfter e) (drawn st) a b)))"
  by (simp_all add: useMockTrends_def Let_def)

lemma useMockInspiration_frame:
  "trace (snd (useMockInspiration e a m w st)) = trace st"
  "limiter (snd (useMockInspiration e a m w st)) = limiter st"
  "storage (snd (useMockInspiration e a m w st)) = storage st"
  "tokenInfo (snd (useMockInspiration e a m w st)) = tokenInfo st"
  by (simp_all add: useMockInspiration_def Let_def)

lemma cacheGet_frame:
  "trace (snd (cacheGet e key st)) = trace st"
  "limiter (snd (cacheGet e key st)) = limiter st"
  "tokenInfo (snd (cacheGet e key st)) = tokenInfo st"
  by (simp_all add: cacheGet_def Let_def)

lemma cacheSet_frame:
  "trace (cacheSet e key d h st) = trace st"
  "limiter (cacheSet e key d h st) = limiter st"
  "tokenInfo (cacheSet e key d h st) = tokenInfo st"
  by (simp_all add: cacheSet_def)

lemma canMakeCall_frame:
  "trace (snd (canMakeCall e st)) = trace st"
  "storage (snd (canMakeCall e st)) = storage st"
  "tokenInfo (snd (canMakeCall e st)) = tokenInfo st"
  "limiter (snd (canMakeCall e st)) = windowReset (limiter st) (Date_now e)"
  by (simp_all add: canMakeCall_def Let_def canMakeCall_snd)

lemma recordCall_frame:
  "trace (recordCall e st) =
     trace st @ [CallRecorded (callsToday (limiter st) + 1) (callsThisMinute (limiter st) + 1)]"
  "limiter (recordCall e st) =
     (limiter st)\<lparr>callsToday := callsToday (limiter st) + 1,
                   callsThisMinute := callsThisMinute (limiter st) + 1\<rparr>"
  "tokenInfo (recordCall e st) = tokenInfo st"
  by (simp_all add: recordCall_def Let_def recordCall_fst)

lemma getAmadeusToken_frame:
  "limiter (snd (getAmadeusToken e st)) = limiter st"
  "storage (snd (getAmadeusToken e st)) = storage st"
  "trace (snd (getAmadeusToken e st)) =
     trace st @ (if tokenFresh e st then [] else [HttpRequest OAuth2Token])"
  by (simp_all add: getAmadeusToken_def exchangeToken_def tokenFresh_def Let_def
      split: option.splits outcome.splits)

lemma getMockPriceTrends_length:
  "length (fst (getMockPriceTrendsForRoute g dt k a b)) = 7"
  by (simp add: getMockPriceTrendsForRoute_def)

section \<open>Equal origin and destination\<close>

lemma resolved_frame:
  "fst (resolved r) = Inr (fst r)"
  "snd (resolved r) = snd r"
  by (simp_all add: resolved_def)

text \<open>
  Claim C4, as the operations keep it. For a flight search or a price-trend request
  whose origin equals its destination: \<^verbatim>\<open>searchFlights\<close>, when the departure date is a
  valid date, returns the synthesized flights of the generator run without a base price,
  a list that is not empty; \<^verbatim>\<open>getPriceTrends\<close> and \<^verbatim>\<open>getFlightCheapestDates\<close> return the seven
  synthesized price points; and no operation records a call or makes a request, changes
  the quota counters or touches the store.
\<close>

theorem same_origin_destination_is_synthesized:
  assumes "origin params = destination params" and "unitRandom (random e)"
  shows "(departureDate params \<noteq> InvalidDate \<longrightarrow>
            fst (searchFlights e params st) =
              Inr (fst (generateEnhancedMockFlights (random e) (Date_now e) params None (drawn st))))
       \<and> fst (generateEnhancedMockFlights (random e) (Date_now e) params None (drawn st)) \<noteq> []
       \<and> trace (snd (searchFlights e params st)) = trace st
       \<and> limiter (snd (searchFlights e params st)) = limiter st
       \<and> storage (snd (searchFlights e params st)) = storage st
       \<and> fst (getPriceTrends e params st) =
           Inr (PTrends (fst (getMockPriceTrendsForRoute (random e) (isoDateAfter e) (drawn st)
                  (origin params) (destination params))))
       \<and> length (fst (getMockPriceTrendsForRoute (random e) (isoDateAfter e) (drawn st)
                  (origin params) (destination params))) = 7
       \<and> trace (snd (getPriceTrends e params st)) = trace st
       \<and> limiter (snd (getPriceTrends e params st)) = limiter st
       \<and> storage (snd (getPriceTrends e params st)) = storage st
       \<and> getFlightCheapestDates e (origin params) (destination params) oneWay st =
           getPriceTrends e params st"
proof -
  have s: "departureDate params \<noteq> InvalidDate \<Longrightarrow>
      searchFlights e params st = resolved (useMockFlights e params None st)"
    using assms(1) by (simp add: searchFlights_def)
  have i: "departureDate params = InvalidDate \<Longrightarrow> searchFlights e params st = (Inl RangeError, st)"
    by (simp add: searchFlights_def)
  have p: "getPriceTrends e params st = useMockTrends e (origin params) (destination params) st"
    using assms(1) by (simp add: getPriceTrends_def)
  have c: "getFlightCheapestDates e (origin params) (destination params) oneWay st =
      useMockTrends e (origin params) (destination params) st"
    using assms(1) by (simp add: getFlightCheapestDates_def)
  have n: "fst (generateEnhancedMockFlights (random e) (Date_now e) params None (drawn st)) \<noteq> []"
    using generated_length(1) [OF assms(2), of "Date_now e" params None "drawn st"] by auto
  have f: "trace (snd (searchFlights e params st)) = trace st"
    "limiter (snd (searchFlights e params st)) = limiter st"
    "storage (snd (searchFlights e params st)) = storage st"
    using s i by (cases "departureDate params = InvalidDate";
        simp add: resolved_frame useMockFlights_frame)+
  have r: "departureDate params \<noteq> InvalidDate \<longrightarrow>
            fst (searchFlights e params st) =
              Inr (fst (generateEnhancedMockFlights (random e) (Date_now e) params None (drawn st)))"
    using s by (simp add: resolved_frame useMockFlights_frame)
  show ?thesis
    unfolding p c using n f r
    by (simp add: useMockTrends_frame getMockPriceTrends_length)
qed

theorem same_origin_destination_is_synthesized_witness:
  "origin (route\<lparr>destination := js ''JFK''\<rparr>) = destination (route\<lparr>destination := js ''JFK''\<rparr>)
   \<and> unitRandom (random sampleEnv)
   \<and> departureDate (route\<lparr>destination := js ''JFK''\<rparr>) \<noteq> InvalidDate
   \<and> fst (searchFlights sampleEnv (route\<lparr>destination := js ''JFK''\<rparr>) freshState) =
       Inr (fst (generateEnhancedMockFlights (random sampleEnv) (Date_now sampleEnv)
                   (route\<lparr>destination := js ''JFK''\<rparr>) None (drawn freshState)))
   \<and> fst (generateEnhancedMockFlights (random sampleEnv) (Date_now sampleEnv)
                   (route\<lparr>destination := js ''JFK''\<rparr>) None (drawn freshState)) \<noteq> []
   \<and> trace (snd (searchFlights sampleEnv (route\<lparr>destination := js ''JFK''\<rparr>) freshState)) = []
   \<and> limiter (snd (getPriceTrends sampleEnv (route\<lparr>destination := js ''JFK''\<rparr>) freshState))
       = \<lparr>callsToday = 0, callsThisMinute = 0, minuteStart = 0\<rparr>"
proof -
  let ?p = "route\<lparr>destination := js ''JFK''\<rparr>"
  have u: "unitRandom (random sampleEnv)" by (simp add: unitRandom_def sampleEnv_def)
  have o: "origin ?p = destination ?p" by (simp add: route_def)
  have v: "departureDate ?p \<noteq> InvalidDate" by (simp add: route_def)
  note w = same_origin_destination_is_synthesized [OF o u, of freshState]
  have t: "trace freshState = []"
    "limiter freshState = \<lparr>callsToday = 0, callsThisMinute = 0, minuteStart = 0\<rparr>"
    by (simp_all add: freshState_def)
  from w v have a: "fst (searchFlights sampleEnv ?p freshState) =
       Inr (fst (generateEnhancedMockFlights (random sampleEnv) (Date_now sampleEnv)
                   ?p None (drawn freshState)))"
    by blast
  from w have n: "fst (generateEnhancedMockFlights (random sampleEnv) (Date_now sampleEnv)
                   ?p None (drawn freshState)) \<noteq> []"
    by blast
  from w have b: "trace (snd (searchFlights sampleEnv ?p freshState)) = trace freshState"
    by blast
  from w have c: "limiter (snd (getPriceTrends sampleEnv ?p freshState)) = limiter freshState"
    by blast
  from o u v a n b c show ?thesis unfolding t by (intro conjI)
qed

text \<open>
  Claim C4 as stated fails for a search whose departure date is the Invalid Date: the
  first statement of \<^verbatim>\<open>searchFlights\<close> reads its ISO text before origin and destination
  are compared, and the operation throws a range error where the claim has it return
  synthesized flights.
\<close>

theorem same_origin_invalid_date_counterexample:
  "origin (undatedRoute\<lparr>destination := js ''JFK''\<rparr>)
     = destination (undatedRoute\<lparr>destination := js ''JFK''\<rparr>)
   \<and> fst (searchFlights sampleEnv (undatedRoute\<lparr>destination := js ''JFK''\<rparr>) freshState)
       = Inl RangeError"
  by (simp add: undatedRoute_def route_def searchFlights_def)

section \<open>Flight search is synthesis\<close>

lemma cheapestDatesLive_trace:
  "\<exists>new. trace (snd (cheapestDatesLive e a b key st)) = trace st @ new \<and> list_all priceEvent new"
proof -
  let ?tk = "getAmadeusToken e (recordCall e st)"
  have t: "trace (snd ?tk) = trace st @
      ([CallRecorded (callsToday (limiter st) + 1) (callsThisMinute (limiter st) + 1)] @
       (if tokenFresh e (recordCall e st) then [] else [HttpRequest OAuth2Token]))"
    by (simp add: getAmadeusToken_frame recordCall_frame)
  show ?thesis
  proof (cases "fst ?tk")
    case (Inl err)
    then have "trace (snd (cheapestDatesLive e a b key st)) = trace (snd ?tk)"
      by (simp add: cheapestDatesLive_def Let_def)
    with t show ?thesis by (simp add: priceEvent_def)
  next
    case (Inr token)
    then have "trace (snd (cheapestDatesLive e a b key st)) = trace (snd ?tk) @ [HttpRequest FlightDates]"
      by (simp add: cheapestDatesLive_def Let_def cacheSet_frame useMockTrends_frame
          split: outcome.splits option.splits)
    with t show ?thesis by (simp add: priceEvent_def)
  qed
qed

lemma getFlightCheapestDates_trace:
  "\<exists>new. trace (snd (getFlightCheapestDates e a b w st)) = trace st @ new \<and> list_all priceEvent new"
proof -
  let ?key = "js ''cheapest_dates_'' @ a @ js ''_'' @ b @ js ''_'' @ boolString w"
  let ?c = "cacheGet e ?key st"
  let ?chk = "canMakeCall e (snd ?c)"
  let ?r = "cheapestDatesLive e a b ?key (snd ?chk)"
  obtain new where n: "trace (snd ?r) = trace st @ new" "list_all priceEvent new"
    using cheapestDatesLive_trace [of e a b ?key "snd ?chk"]
    by (auto simp add: canMakeCall_frame cacheGet_frame)
  have "trace (snd (getFlightCheapestDates e a b w st)) = trace st
      \<or> trace (snd (getFlightCheapestDates e a b w st)) = trace (snd ?r)"
    by (simp add: getFlightCheapestDates_def Let_def useMockTrends_frame cacheGet_frame
        canMakeCall_frame split: sum.splits error.splits)
  with n show ?thesis by auto
qed

lemma getPriceTrends_trace:
  "\<exists>new. trace (snd (getPriceTrends e params st)) = trace st @ new \<and> list_all priceEvent new"
  using getFlightCheapestDates_trace [of e "origin params" "destination params" False st]
  by (simp add: getPriceTrends_def useMockTrends_frame)

lemma mockFlight_biased:
  assumes "unitRandom g"
  shows "biasedBy b (fst (mockFlight g t params b i k))"
proof -
  have v: "\<And>j. 3 / 4 \<le> 75 / 100 + g j * (5 / 10) \<and> 75 / 100 + g j * (5 / 10) < 5 / 4"
  proof -
    fix j
    have "0 \<le> g j" and "g j < 1" using assms by (simp_all add: unitRandom_def)
    then show "3 / 4 \<le> 75 / 100 + g j * (5 / 10) \<and> 75 / 100 + g j * (5 / 10) < 5 / 4"
      by simp
  qed
  have "\<And>j. \<exists>v. 3 / 4 \<le> v \<and> v < 5 / 4
            \<and> Math_round (b * (75 / 100 + g j * (5 / 10))) = Math_round (b * v)"
    using v by blast
  then show ?thesis
    by (simp add: biasedBy_def mockFlight_def Let_def)
qed

lemma generated_biased:
  assumes "unitRandom g" and "v \<noteq> 0"
  shows "list_all (biasedBy v) (fst (generateEnhancedMockFlights g t params (Some v) k))"
  using flightLoop_all [of "biasedBy v" g t params v, OF mockFlight_biased [OF assms(1)]] assms(2)
  by (simp add: generateEnhancedMockFlights_def Let_def list_all_iff)

lemma generated_default:
  assumes "unitRandom g"
  shows "\<exists>b. 200 \<le> b \<and> b < 1000
           \<and> list_all (biasedBy b) (fst (generateEnhancedMockFlights g t params None k))"
proof -
  let ?b = "200 + g k * 800"
  have "0 \<le> g k" and "g k < 1" using assms by (simp_all add: unitRandom_def)
  then have r: "200 \<le> ?b \<and> ?b < 1000" by simp
  have "list_all (biasedBy ?b) (fst (generateEnhancedMockFlights g t params None k))"
    using flightLoop_all [of "biasedBy ?b" g t params ?b, OF mockFlight_biased [OF assms]]
    by (simp add: generateEnhancedMockFlights_def Let_def list_all_iff)
  with r show ?thesis by blast
qed

text \<open>
  Claim C5, as the operation keeps it. For every search whose departure date is a valid
  date, \<^verbatim>\<open>searchFlights\<close> returns the output of the flight generator for some base price.
  The events it adds are recorded calls and requests to the token and flight-dates
  endpoints, never a flight-offers request. In live mode with distinct origin and
  destination the base price is the average of the price trends that \<^verbatim>\<open>getPriceTrends\<close>
  returned, and when \<^verbatim>\<open>getPriceTrends\<close> or the averaging throws, the generator runs
  without a base price. With random draws in the unit interval, every price is then
  the average, when it is a number other than 0, and else a random base from 200 up to
  1000, times a variation from 0.75 up to 1.25, rounded.
\<close>

theorem searchFlights_always_synthesizes:
  assumes "departureDate params \<noteq> InvalidDate"
  shows "(\<exists>basePrice k. fst (searchFlights e params st) =
        Inr (fst (generateEnhancedMockFlights (random e) (Date_now e) params basePrice k)))
   \<and> (\<exists>new. trace (snd (searchFlights e params st)) = trace st @ new
          \<and> list_all priceEvent new \<and> HttpRequest FlightOffers \<notin> set new)
   \<and> (\<not> MOCK_MODE e \<and> origin params \<noteq> destination params \<longrightarrow>
        (\<forall>err. fst (getPriceTrends e params st) = Inl err \<longrightarrow>
           searchFlights e params st =
             resolved (useMockFlights e params None (snd (getPriceTrends e params st))))
        \<and> (\<forall>p avg. fst (getPriceTrends e params st) = Inr p \<and> averagePrice p = Inr avg \<longrightarrow>
           searchFlights e params st =
             resolved (useMockFlights e params avg (snd (getPriceTrends e params st))))
        \<and> (\<forall>p err. fst (getPriceTrends e params st) = Inr p \<and> averagePrice p = Inl err \<longrightarrow>
           searchFlights e params st =
             resolved (useMockFlights e params None (snd (getPriceTrends e params st)))))
   \<and> (unitRandom (random e) \<and> \<not> MOCK_MODE e \<and> origin params \<noteq> destination params \<longrightarrow>
        (\<forall>p avg. fst (getPriceTrends e params st) = Inr p \<and> averagePrice p = Inr (Some avg)
              \<and> avg \<noteq> 0 \<longrightarrow>
           (\<exists>fs. fst (searchFlights e params st) = Inr fs \<and> list_all (biasedBy avg) fs))
        \<and> (\<forall>err. fst (getPriceTrends e params st) = Inl err \<longrightarrow>
           (\<exists>fs b. fst (searchFlights e params st) = Inr fs \<and> 200 \<le> b \<and> b < 1000
               \<and> list_all (biasedBy b) fs)))"
proof -
  let ?r = "getPriceTrends e params st"
  have shape: "\<exists>bp st'. searchFlights e params st = resolved (useMockFlights e params bp st')
                  \<and> (st' = st \<or> st' = snd ?r)"
    using assms by (auto simp add: searchFlights_def Let_def split: sum.splits)
  then obtain bp st' where s: "searchFlights e params st = resolved (useMockFlights e params bp st')"
    and st': "st' = st \<or> st' = snd ?r" by blast
  have a: "\<exists>basePrice k. fst (searchFlights e params st) =
        Inr (fst (generateEnhancedMockFlights (random e) (Date_now e) params basePrice k))"
    unfolding s resolved_frame useMockFlights_frame by blast
  obtain new where n: "trace (snd ?r) = trace st @ new" "list_all priceEvent new"
    using getPriceTrends_trace [of e params st] by blast
  have "trace (snd (searchFlights e params st)) = trace st'"
    unfolding s by (simp add: resolved_frame useMockFlights_frame)
  with st' n have "\<exists>new. trace (snd (searchFlights e params st)) = trace st @ new
          \<and> list_all priceEvent new"
    by auto
  then have b: "\<exists>new. trace (snd (searchFlights e params st)) = trace st @ new
          \<and> list_all priceEvent new \<and> HttpRequest FlightOffers \<notin> set new"
    by (auto simp add: list_all_iff priceEvent_def)
  have c: "\<not> MOCK_MODE e \<and> origin params \<noteq> destination params \<longrightarrow>
        (\<forall>err. fst ?r = Inl err \<longrightarrow>
           searchFlights e params st = resolved (useMockFlights e params None (snd ?r)))
        \<and> (\<forall>p avg. fst ?r = Inr p \<and> averagePrice p = Inr avg \<longrightarrow>
           searchFlights e params st = resolved (useMockFlights e params avg (snd ?r)))
        \<and> (\<forall>p err. fst ?r = Inr p \<and> averagePrice p = Inl err \<longrightarrow>
           searchFlights e params st = resolved (useMockFlights e params None (snd ?r)))"
    using assms by (simp add: searchFlights_def Let_def)
  have d: "unitRandom (random e) \<and> \<not> MOCK_MODE e \<and> origin params \<noteq> destination params \<longrightarrow>
        (\<forall>p avg. fst ?r = Inr p \<and> averagePrice p = Inr (Some avg) \<and> avg \<noteq> 0 \<longrightarrow>
           (\<exists>fs. fst (searchFlights e params st) = Inr fs \<and> list_all (biasedBy avg) fs))
        \<and> (\<forall>err. fst ?r = Inl err \<longrightarrow>
           (\<exists>fs b. fst (searchFlights e params st) = Inr fs \<and> 200 \<le> b \<and> b < 1000
               \<and> list_all (biasedBy b) fs))"
  proof (intro impI conjI allI)
    fix p avg
    assume h: "unitRandom (random e) \<and> \<not> MOCK_MODE e \<and> origin params \<noteq> destination params"
      and k: "fst ?r = Inr p \<and> averagePrice p = Inr (Some avg) \<and> avg \<noteq> 0"
    from c h k have "fst (searchFlights e params st) =
        Inr (fst (generateEnhancedMockFlights (random e) (Date_now e) params (Some avg)
                    (drawn (snd ?r))))"
      by (simp add: resolved_frame useMockFlights_frame)
    moreover have "list_all (biasedBy avg)
        (fst (generateEnhancedMockFlights (random e) (Date_now e) params (Some avg) (drawn (snd ?r))))"
      using h k by (simp add: generated_biased)
    ultimately show "\<exists>fs. fst (searchFlights e params st) = Inr fs \<and> list_all (biasedBy avg) fs"
      by blast
  next
    fix err
    assume h: "unitRandom (random e) \<and> \<not> MOCK_MODE e \<and> origin params \<noteq> destination params"
      and k: "fst ?r = Inl err"
    from c h k have "fst (searchFlights e params st) =
        Inr (fst (generateEnhancedMockFlights (random e) (Date_now e) params None (drawn (snd ?r))))"
      by (simp add: resolved_frame useMockFlights_frame)
    moreover obtain b where "200 \<le> b \<and> b < 1000 \<and> list_all (biasedBy b)
        (fst (generateEnhancedMockFlights (random e) (Date_now e) params None (drawn (snd ?r))))"
      using generated_default [of "random e" "Date_now e" params "drawn (snd ?r)"] h by blast
    ultimately show "\<exists>fs b. fst (searchFlights e params st) = Inr fs \<and> 200 \<le> b \<and> b < 1000
               \<and> list_all (biasedBy b) fs"
      by blast
  qed
  from a b c d show ?thesis by (intro conjI)
qed

theorem searchFlights_always_synthesizes_witness:
  "departureDate route \<noteq> InvalidDate \<and> unitRandom (random sampleEnv)
   \<and> \<not> MOCK_MODE deniedEnv \<and> origin route \<noteq> destination route
   \<and> fst (getPriceTrends deniedEnv route freshState) = Inl authFailed
   \<and> searchFlights deniedEnv route freshState =
       resolved (useMockFlights deniedEnv route None (snd (getPriceTrends deniedEnv route freshState)))
   \<and> fst (getPriceTrends sampleEnv route freshState) =
       Inr (PTrends [\<lparr>p_date = js ''2026-11-10'', p_price = 2 / 5, p_airline = js ''Various''\<rparr>])
   \<and> searchFlights sampleEnv route freshState =
       resolved (useMockFlights sampleEnv route (Some (2 / 5))
                  (snd (getPriceTrends sampleEnv route freshState)))
   \<and> (\<exists>fs. fst (searchFlights sampleEnv route freshState) = Inr fs
          \<and> list_all (biasedBy (2 / 5)) fs)"
proof -
  have v: "departureDate route \<noteq> InvalidDate" by (simp add: route_def)
  have u: "unitRandom (random sampleEnv)" by (simp add: unitRandom_def sampleEnv_def)
  have m: "\<not> MOCK_MODE deniedEnv" "\<not> MOCK_MODE sampleEnv"
    by (simp_all add: deniedEnv_def sampleEnv_def)
  have o: "origin route \<noteq> destination route" by (simp add: route_def js_def)
  have f: "fst (getPriceTrends deniedEnv route freshState) = Inl authFailed"
    by code_simp
  have g: "fst (getPriceTrends sampleEnv route freshState) =
       Inr (PTrends [\<lparr>p_date = js ''2026-11-10'', p_price = 2 / 5, p_airline = js ''Various''\<rparr>])"
    by code_simp
  have a: "averagePrice (PTrends [\<lparr>p_date = js ''2026-11-10'', p_price = 2 / 5, p_airline = js ''Various''\<rparr>])
      = Inr (Some (2 / 5))"
    by (simp add: averagePrice_def)
  have z: "(2::rat) / 5 \<noteq> 0" by simp
  from searchFlights_always_synthesizes [OF v, of deniedEnv freshState] m o f
  have d: "searchFlights deniedEnv route freshState =
       resolved (useMockFlights deniedEnv route None (snd (getPriceTrends deniedEnv route freshState)))"
    by blast
  from searchFlights_always_synthesizes [OF v, of sampleEnv freshState] m o g a
  have s: "searchFlights sampleEnv route freshState =
       resolved (useMockFlights sampleEnv route (Some (2 / 5))
                  (snd (getPriceTrends sampleEnv route freshState)))"
    by blast
  from searchFlights_always_synthesizes [OF v, of sampleEnv freshState] u m o g a z
  have b: "\<exists>fs. fst (searchFlights sampleEnv route freshState) = Inr fs
          \<and> list_all (biasedBy (2 / 5)) fs"
    by blast
  from v u m(1) o f d g s b show ?thesis by (intro conjI)
qed

text \<open>
  Claim C5 as stated fails for a search whose departure date is the Invalid Date: in
  live mode, with distinct origin and destination, \<^verbatim>\<open>searchFlights\<close> throws a range error
  at its first statement and returns no flights, and nothing was recorded or requested.
\<close>

theorem searchFlights_invalid_date_counterexample:
  "origin undatedRoute \<noteq> destination undatedRoute
   \<and> searchFlights sampleEnv undatedRoute freshState = (Inl RangeError, freshState)"
  by (simp add: undatedRoute_def route_def searchFlights_def js_def)

section \<open>Quota is consumed before the call\<close>

lemma cache_key_not_storage_key: "CACHE_PREFIX @ key \<noteq> STORAGE_KEY"
  by (simp add: CACHE_PREFIX_def STORAGE_KEY_def js_def)

lemma cacheSet_storage_key:
  "getItem (storage (cacheSet e key d h st)) STORAGE_KEY = getItem (storage st) STORAGE_KEY"
  using cache_key_not_storage_key [of key]
  by (auto simp add: cacheSet_def APICacheManager_set_def setItem_def getItem_def Let_def)

lemma cacheGet_writable:
  "writable (storage (snd (cacheGet e key st))) = writable (storage st)"
  by (simp add: cacheGet_def APICacheManager_get_def removeItem_def Let_def
      split: option.splits item.splits)

lemma recordCall_storage_key:
  "writable (storage st) \<Longrightarrow>
   getItem (storage (recordCall e st)) STORAGE_KEY =
     Some (CallsJSON \<lparr>saved_callsToday = callsToday (limiter st) + 1,
                      saved_callsThisMinute = callsThisMinute (limiter st) + 1,
                      saved_minuteStart = minuteStart (limiter st),
                      saved_date = toDateString e\<rparr>)"
  by (simp add: recordCall_def APIRateLimiter_recordCall_def setItem_def getItem_def Let_def)

lemma afterToken: "afterRecord st1 (snd (getAmadeusToken e st1))"
  by (simp add: afterRecord_def getAmadeusToken_frame isRequest_def)

lemma afterRequest:
  assumes "afterRecord st1 st2"
    and "limiter st' = limiter st2"
    and "getItem (storage st') STORAGE_KEY = getItem (storage st2) STORAGE_KEY"
    and "trace st' = trace st2 \<or> (\<exists>ep. trace st' = trace st2 @ [HttpRequest ep])"
  shows "afterRecord st1 st'"
  using assms by (auto simp add: afterRecord_def isRequest_def)

lemma inspirationLive_after: "afterRecord (recordCall e st) (snd (inspirationLive e key st))"
proof -
  let ?tk = "getAmadeusToken e (recordCall e st)"
  show ?thesis
  proof (rule afterRequest [OF afterToken [of "recordCall e st" e]])
    show "limiter (snd (inspirationLive e key st)) = limiter (snd ?tk)"
      by (simp add: inspirationLive_def Let_def cacheSet_frame split: sum.splits outcome.splits)
    show "getItem (storage (snd (inspirationLive e key st))) STORAGE_KEY
        = getItem (storage (snd ?tk)) STORAGE_KEY"
      by (simp add: inspirationLive_def Let_def cacheSet_storage_key split: sum.splits outcome.splits)
    show "trace (snd (inspirationLive e key st)) = trace (snd ?tk)
        \<or> (\<exists>ep. trace (snd (inspirationLive e key st)) = trace (snd ?tk) @ [HttpRequest ep])"
      by (simp add: inspirationLive_def Let_def cacheSet_frame split: sum.splits outcome.splits)
  qed
qed

lemma cheapestDatesLive_after:
  "afterRecord (recordCall e st) (snd (cheapestDatesLive e a b key st))"
proof -
  let ?tk = "getAmadeusToken e (recordCall e st)"
  show ?thesis
  proof (rule afterRequest [OF afterToken [of "recordCall e st" e]])
    show "limiter (snd (cheapestDatesLive e a b key st)) = limiter (snd ?tk)"
      by (simp add: cheapestDatesLive_def Let_def cacheSet_frame useMockTrends_frame
          split: sum.splits outcome.splits option.splits)
    show "getItem (storage (snd (cheapestDatesLive e a b key st))) STORAGE_KEY
        = getItem (storage (snd ?tk)) STORAGE_KEY"
      by (simp add: cheapestDatesLive_def Let_def cacheSet_storage_key useMockTrends_frame
          split: sum.splits outcome.splits option.splits)
    show "trace (snd (cheapestDatesLive e a b key st)) = trace (snd ?tk)
        \<or> (\<exists>ep. trace (snd (cheapestDatesLive e a b key st)) = trace (snd ?tk) @ [HttpRequest ep])"
      by (simp add: cheapestDatesLive_def Let_def cacheSet_frame useMockTrends_frame
          split: sum.splits outcome.splits option.splits)
  qed
qed

lemma locationsLive_after: "afterRecord (recordCall e st) (snd (locationsLive e key st))"
proof -
  let ?tk = "getAmadeusToken e (recordCall e st)"
  show ?thesis
  proof (rule afterRequest [OF afterToken [of "recordCall e st" e]])
    show "limiter (snd (locationsLive e key st)) = limiter (snd ?tk)"
      by (simp add: locationsLive_def Let_def cacheSet_frame
          split: sum.splits outcome.splits option.splits)
    show "getItem (storage (snd (locationsLive e key st))) STORAGE_KEY
        = getItem (storage (snd ?tk)) STORAGE_KEY"
      by (simp add: locationsLive_def Let_def cacheSet_storage_key
          split: sum.splits outcome.splits option.splits)
    show "trace (snd (locationsLive e key st)) = trace (snd ?tk)
        \<or> (\<exists>ep. trace (snd (locationsLive e key st)) = trace (snd ?tk) @ [HttpRequest ep])"
      by (simp add: locationsLive_def Let_def cacheSet_frame
          split: sum.splits outcome.splits option.splits)
  qed
qed


lemma consumed_from_after:
  assumes "afterRecord (recordCall e (snd (canMakeCall e (snd (cacheGet e key st))))) st'"
  shows "quotaConsumed e st st'"
proof -
  let ?st1 = "snd (canMakeCall e (snd (cacheGet e key st)))"
  have l: "limiter ?st1 = windowReset (limiter st) (Date_now e)"
    by (simp add: canMakeCall_frame cacheGet_frame)
  have t: "trace ?st1 = trace st"
    by (simp add: canMakeCall_frame cacheGet_frame)
  have w: "writable (storage ?st1) = writable (storage st)"
    by (simp add: canMakeCall_frame cacheGet_writable)
  show ?thesis
    using assms recordCall_storage_key [of ?st1 e]
    unfolding afterRecord_def quotaConsumed_def Let_def recordCall_frame l t w
    by auto
qed

lemma neverDecremented_from_step:
  assumes "limiterStep e st st'"
  shows "neverDecremented e st st'"
  using assms unfolding limiterStep_def neverDecremented_def
  by (auto simp add: windowReset_def)

lemma getFlightCheapestDates_consumes:
  assumes "a \<noteq> b"
    and "admittedLive e (js ''cheapest_dates_'' @ a @ js ''_'' @ b @ js ''_'' @ boolString w) st"
  shows "quotaConsumed e st (snd (getFlightCheapestDates e a b w st))"
proof -
  let ?key = "js ''cheapest_dates_'' @ a @ js ''_'' @ b @ js ''_'' @ boolString w"
  let ?chk = "canMakeCall e (snd (cacheGet e ?key st))"
  let ?r = "cheapestDatesLive e a b ?key (snd ?chk)"
  have al: "allowed (fst ?chk)"
    using assms(2) by (simp add: admittedLive_def canMakeCall_def Let_def cacheGet_frame)
  have "snd (getFlightCheapestDates e a b w st) = snd ?r
      \<or> snd (getFlightCheapestDates e a b w st) = snd (useMockTrends e a b (snd ?r))"
    using assms al
    by (simp add: getFlightCheapestDates_def admittedLive_def Let_def split: sum.splits error.splits)
  then have "afterRecord (recordCall e (snd ?chk)) (snd (getFlightCheapestDates e a b w st))"
    using cheapestDatesLive_after [of e "snd ?chk" a b ?key]
    by (auto simp add: afterRecord_def useMockTrends_frame)
  then show ?thesis by (rule consumed_from_after)
qed

lemma getFlightInspiration_consumes:
  assumes "admittedLive e (js ''inspiration_'' @ a @ js ''_'' @ toString m @ js ''_'' @ boolString w) st"
  shows "quotaConsumed e st (snd (getFlightInspiration e a m w st))"
proof -
  let ?key = "js ''inspiration_'' @ a @ js ''_'' @ toString m @ js ''_'' @ boolString w"
  let ?chk = "canMakeCall e (snd (cacheGet e ?key st))"
  let ?r = "inspirationLive e ?key (snd ?chk)"
  have al: "allowed (fst ?chk)"
    using assms by (simp add: admittedLive_def canMakeCall_def Let_def cacheGet_frame)
  have "snd (getFlightInspiration e a m w st) = snd ?r
      \<or> snd (getFlightInspiration e a m w st) = snd (useMockInspiration e a m w (snd ?r))"
    using assms al
    by (simp add: getFlightInspiration_def admittedLive_def Let_def split: sum.splits error.splits)
  then have "afterRecord (recordCall e (snd ?chk)) (snd (getFlightInspiration e a m w st))"
    using inspirationLive_after [of e "snd ?chk" ?key]
    by (auto simp add: afterRecord_def useMockInspiration_frame)
  then show ?thesis by (rule consumed_from_after)
qed

lemma getAirportSuggestions_consumes:
  assumes "2 \<le> length q"
    and "admittedLive e (js ''airports_'' @ toLowerCase e q) st"
  shows "quotaConsumed e st (snd (getAirportSuggestions e q st))"
proof -
  let ?key = "js ''airports_'' @ toLowerCase e q"
  let ?chk = "canMakeCall e (snd (cacheGet e ?key st))"
  let ?r = "locationsLive e ?key (snd ?chk)"
  have al: "allowed (fst ?chk)"
    using assms(2) by (simp add: admittedLive_def canMakeCall_def Let_def cacheGet_frame)
  have q: "\<not> (q = [] \<or> length q < 2)" using assms(1) by auto
  have "snd (getAirportSuggestions e q st) = snd ?r"
    using assms(2) al q
    by (simp add: getAirportSuggestions_def admittedLive_def Let_def split: sum.splits error.splits)
  then have "afterRecord (recordCall e (snd ?chk)) (snd (getAirportSuggestions e q st))"
    using locationsLive_after [of e "snd ?chk" ?key] by simp
  then show ?thesis by (rule consumed_from_after)
qed

lemma live_step:
  assumes "afterRecord (recordCall e (snd (canMakeCall e (snd (cacheGet e key st))))) st'"
  shows "limiterStep e st st'"
  using assms
  by (simp add: afterRecord_def limiterStep_def recordCall_frame canMakeCall_frame cacheGet_frame)

lemma getFlightCheapestDates_step: "limiterStep e st (snd (getFlightCheapestDates e a b w st))"
proof -
  let ?key = "js ''cheapest_dates_'' @ a @ js ''_'' @ b @ js ''_'' @ boolString w"
  let ?c = "cacheGet e ?key st"
  let ?chk = "canMakeCall e (snd ?c)"
  let ?r = "cheapestDatesLive e a b ?key (snd ?chk)"
  have "limiter (snd (getFlightCheapestDates e a b w st)) = limiter st
      \<or> limiter (snd (getFlightCheapestDates e a b w st)) = limiter (snd ?chk)
      \<or> limiter (snd (getFlightCheapestDates e a b w st)) = limiter (snd ?r)"
    by (simp add: getFlightCheapestDates_def Let_def useMockTrends_frame cacheGet_frame
        split: sum.splits error.splits)
  moreover have "limiterStep e st (snd ?r)"
    using cheapestDatesLive_after [of e "snd ?chk" a b ?key] by (rule live_step)
  ultimately show ?thesis
    by (auto simp add: limiterStep_def canMakeCall_frame cacheGet_frame)
qed

lemma getFlightInspiration_step: "limiterStep e st (snd (getFlightInspiration e a m w st))"
proof -
  let ?key = "js ''inspiration_'' @ a @ js ''_'' @ toString m @ js ''_'' @ boolString w"
  let ?c = "cacheGet e ?key st"
  let ?chk = "canMakeCall e (snd ?c)"
  let ?r = "inspirationLive e ?key (snd ?chk)"
  have "limiter (snd (getFlightInspiration e a m w st)) = limiter st
      \<or> limiter (snd (getFlightInspiration e a m w st)) = limiter (snd ?chk)
      \<or> limiter (snd (getFlightInspiration e a m w st)) = limiter (snd ?r)"
    by (simp add: getFlightInspiration_def Let_def useMockInspiration_frame cacheGet_frame
        split: sum.splits error.splits)
  moreover have "limiterStep e st (snd ?r)"
    using inspirationLive_after [of e "snd ?chk" ?key] by (rule live_step)
  ultimately show ?thesis
    by (auto simp add: limiterStep_def canMakeCall_frame cacheGet_frame)
qed

lemma getAirportSuggestions_step: "limiterStep e st (snd (getAirportSuggestions e q st))"
proof -
  let ?key = "js ''airports_'' @ toLowerCase e q"
  let ?c = "cacheGet e ?key st"
  let ?chk = "canMakeCall e (snd ?c)"
  let ?r = "locationsLive e ?key (snd ?chk)"
  have "limiter (snd (getAirportSuggestions e q st)) = limiter st
      \<or> limiter (snd (getAirportSuggestions e q st)) = limiter (snd ?chk)
      \<or> limiter (snd (getAirportSuggestions e q st)) = limiter (snd ?r)"
    by (simp add: getAirportSuggestions_def Let_def cacheGet_frame
        split: sum.splits error.splits)
  moreover have "limiterStep e st (snd ?r)"
    using locationsLive_after [of e "snd ?chk" ?key] by (rule live_step)
  ultimately show ?thesis
    by (auto simp add: limiterStep_def canMakeCall_frame cacheGet_frame)
qed

lemma getPriceTrends_step: "limiterStep e st (snd (getPriceTrends e params st))"
  using getFlightCheapestDates_step [of e st "origin params" "destination params" False]
  by (simp add: getPriceTrends_def useMockTrends_frame limiterStep_def)

lemma searchFlights_step: "limiterStep e st (snd (searchFlights e params st))"
proof -
  have "limiter (snd (searchFlights e params st)) = limiter st
      \<or> limiter (snd (searchFlights e params st)) = limiter (snd (getPriceTrends e params st))"
    by (simp add: searchFlights_def Let_def resolved_frame useMockFlights_frame split: sum.splits)
  with getPriceTrends_step [of e st params] show ?thesis
    by (auto simp add: limiterStep_def)
qed

text \<open>
  Claim C10. When \<^verbatim>\<open>getFlightInspiration\<close>, \<^verbatim>\<open>getFlightCheapestDates\<close> or
  \<^verbatim>\<open>getAirportSuggestions\<close> takes the live path, then whatever the credential exchange and
  the request answer, both counters end one above their values after the window check,
  the store (when it accepts writes) holds these counters, and the recording comes
  first among the new events, before the token request and the call. No operation ever
  leaves a counter lower than it found it, but for the per-minute counter when the
  window had run out.
\<close>

theorem admitted_live_call_consumes_quota:
  "(admittedLive e (js ''inspiration_'' @ a @ js ''_'' @ toString m @ js ''_'' @ boolString w) st \<longrightarrow>
      quotaConsumed e st (snd (getFlightInspiration e a m w st)))
   \<and> (a \<noteq> b \<and> admittedLive e (js ''cheapest_dates_'' @ a @ js ''_'' @ b @ js ''_'' @ boolString w) st \<longrightarrow>
      quotaConsumed e st (snd (getFlightCheapestDates e a b w st)))
   \<and> (2 \<le> length q \<and> admittedLive e (js ''airports_'' @ toLowerCase e q) st \<longrightarrow>
      quotaConsumed e st (snd (getAirportSuggestions e q st)))
   \<and> neverDecremented e st (snd (getFlightInspiration e a m w st))
   \<and> neverDecremented e st (snd (getFlightCheapestDates e a b w st))
   \<and> neverDecremented e st (snd (getAirportSuggestions e q st))
   \<and> neverDecremented e st (snd (getPriceTrends e params st))
   \<and> neverDecremented e st (snd (searchFlights e params st))"
  using getFlightInspiration_consumes [of e a m w st]
    getFlightCheapestDates_consumes [of a b e w st]
    getAirportSuggestions_consumes [of q e st]
    neverDecremented_from_step [OF getFlightInspiration_step [of e st a m w]]
    neverDecremented_from_step [OF getFlightCheapestDates_step [of e st a b w]]
    neverDecremented_from_step [OF getAirportSuggestions_step [of e st q]]
    neverDecremented_from_step [OF getPriceTrends_step [of e st params]]
    neverDecremented_from_step [OF searchFlights_step [of e st params]]
  by blast


theorem admitted_live_call_consumes_quota_witness:
  "admittedLive deniedEnv (js ''cheapest_dates_JFK_LAX_false'') freshState
   \<and> fst (getFlightCheapestDates deniedEnv (js ''JFK'') (js ''LAX'') False freshState) = Inl authFailed
   \<and> limiter (snd (getFlightCheapestDates deniedEnv (js ''JFK'') (js ''LAX'') False freshState))
       = \<lparr>callsToday = 1, callsThisMinute = 1, minuteStart = 0\<rparr>
   \<and> getItem (storage (snd (getFlightCheapestDates deniedEnv (js ''JFK'') (js ''LAX'') False freshState)))
         STORAGE_KEY
       = Some (CallsJSON \<lparr>saved_callsToday = 1, saved_callsThisMinute = 1, saved_minuteStart = 0,
                          saved_date = js ''Mon Nov 02 2026''\<rparr>)"
proof -
  have k: "js ''cheapest_dates_'' @ js ''JFK'' @ js ''_'' @ js ''LAX'' @ js ''_'' @ boolString False
      = js ''cheapest_dates_JFK_LAX_false''"
    by (simp add: boolString_def js_def)
  have ad: "admittedLive deniedEnv (js ''cheapest_dates_JFK_LAX_false'') freshState"
    by code_simp
  have f: "fst (getFlightCheapestDates deniedEnv (js ''JFK'') (js ''LAX'') False freshState) = Inl authFailed"
    by code_simp
  have ne: "js ''JFK'' \<noteq> js ''LAX''" by (simp add: js_def)
  from admitted_live_call_consumes_quota [of deniedEnv "js ''JFK''" 1000 False freshState "js ''LAX''"
      "js ''JF''" route] ad ne
  have "quotaConsumed deniedEnv freshState
          (snd (getFlightCheapestDates deniedEnv (js ''JFK'') (js ''LAX'') False freshState))"
    unfolding k by blast
  then have l: "limiter (snd (getFlightCheapestDates deniedEnv (js ''JFK'') (js ''LAX'') False freshState))
       = \<lparr>callsToday = 1, callsThisMinute = 1, minuteStart = 0\<rparr>"
    and g: "getItem (storage (snd (getFlightCheapestDates deniedEnv (js ''JFK'') (js ''LAX'') False freshState)))
         STORAGE_KEY
       = Some (CallsJSON \<lparr>saved_callsToday = 1, saved_callsThisMinute = 1, saved_minuteStart = 0,
                          saved_date = js ''Mon Nov 02 2026''\<rparr>)"
    by (simp_all add: quotaConsumed_def Let_def windowReset_def freshState_def deniedEnv_def
        sampleEnv_def)
  from ad f l g show ?thesis by (intro conjI)
qed


section \<open>Airport suggestions are bounded\<close>

lemma roster_codes_distinct: "distinct (map code MOCK_AIRPORTS)"
  by (simp add: MOCK_AIRPORTS_def js_def)

lemma mock_suggestions_ok: "suggestionsOK (PAirports (getMockAirportSuggestions lower q))"
proof -
  have "distinct (map code (filter (matchesQuery lower q) MOCK_AIRPORTS))"
    using roster_codes_distinct by (rule distinct_map_filter)
  then have "distinct (take 8 (map code (filter (matchesQuery lower q) MOCK_AIRPORTS)))"
    by (rule distinct_take)
  then show ?thesis
    by (simp add: suggestionsOK_def getMockAirportSuggestions_def take_map)
qed

lemma uniqueByCode_distinct: "distinct (map code (uniqueByCode xs))"
proof -
  let ?Q = "\<lambda>(index, suggestion). int index = findIndex (\<lambda>s. code s = code suggestion) xs"
  let ?zs = "filter ?Q (enumerate 0 xs)"
  have d: "distinct ?zs" by (simp add: distinct_enumerate)
  have i: "inj_on (code \<circ> snd) (set ?zs)"
  proof (rule inj_onI)
    fix p q
    assume p: "p \<in> set ?zs" and q: "q \<in> set ?zs" and c: "(code \<circ> snd) p = (code \<circ> snd) q"
    from p have p1: "int (fst p) = findIndex (\<lambda>s. code s = code (snd p)) xs"
      and p2: "xs ! fst p = snd p"
      by (auto simp add: in_set_enumerate_eq)
    from q have q1: "int (fst q) = findIndex (\<lambda>s. code s = code (snd q)) xs"
      and q2: "xs ! fst q = snd q"
      by (auto simp add: in_set_enumerate_eq)
    from c p1 q1 have "fst p = fst q" by simp
    with p2 q2 show "p = q" by (simp add: prod_eq_iff)
  qed
  have "distinct (map (code \<circ> snd) ?zs)"
    using d i by (simp add: distinct_map)
  then show ?thesis by (simp add: uniqueByCode_def)
qed

lemma live_suggestions_ok: "suggestionsOK (PAirports (take 8 (uniqueByCode xs)))"
proof -
  have "distinct (take 8 (map code (uniqueByCode xs)))"
    using uniqueByCode_distinct by (rule distinct_take)
  then show ?thesis by (simp add: suggestionsOK_def take_map)
qed

lemma empty_suggestions_ok: "suggestionsOK (PAirports [])"
  by (simp add: suggestionsOK_def)

lemma airportCacheOK_get:
  assumes "airportCacheOK (storage st)"
  shows "airportCacheOK (storage (snd (cacheGet e key st)))"
  using assms
  by (auto simp add: airportCacheOK_def cacheGet_def APICacheManager_get_def Let_def getItem_def
      removeItem_def split: option.splits item.splits if_splits)

lemma airportCacheOK_record:
  assumes "airportCacheOK (storage st)"
  shows "airportCacheOK (storage (recordCall e st))"
  using assms cache_key_not_storage_key
  by (auto simp add: airportCacheOK_def recordCall_def APIRateLimiter_recordCall_def Let_def
      getItem_def setItem_def split: if_splits)

lemma airportCacheOK_set:
  assumes "airportCacheOK (storage st)" and "suggestionsOK p"
  shows "airportCacheOK (storage (cacheSet e key p h st))"
  using assms
  by (auto simp add: airportCacheOK_def cacheSet_def APICacheManager_set_def Let_def
      getItem_def setItem_def split: if_splits)

lemma hit_ok:
  assumes "airportCacheOK (storage st)" and "isHit (fst (cacheGet e (js ''airports_'' @ q) st))"
  shows "suggestionsOK (hitValue (fst (cacheGet e (js ''airports_'' @ q) st)))"
  using assms
  by (auto simp add: airportCacheOK_def cacheGet_def APICacheManager_get_def Let_def getItem_def
      isHit_def hitValue_def split: option.splits item.splits if_splits)

lemma locationsLive_ok:
  assumes "airportCacheOK (storage st)"
  shows "airportCacheOK (storage (snd (locationsLive e key st)))"
    and "fst (locationsLive e key st) = Inr p \<Longrightarrow> suggestionsOK p"
proof -
  let ?tk = "getAmadeusToken e (recordCall e st)"
  have a: "airportCacheOK (storage (snd ?tk))"
    using airportCacheOK_record [OF assms, of e] by (simp add: getAmadeusToken_frame)
  then have b: "\<And>st2. storage st2 = storage (snd ?tk) \<Longrightarrow> airportCacheOK (storage st2)"
    by simp
  show "airportCacheOK (storage (snd (locationsLive e key st)))"
    using a
    by (auto simp add: locationsLive_def Let_def cacheSet_def
        intro!: airportCacheOK_set [unfolded cacheSet_def, simplified] live_suggestions_ok
        split: sum.splits outcome.splits option.splits)
  show "fst (locationsLive e key st) = Inr p \<Longrightarrow> suggestionsOK p"
    by (auto simp add: locationsLive_def Let_def live_suggestions_ok empty_suggestions_ok
        split: sum.splits outcome.splits option.splits if_splits)
qed


lemma getAirportSuggestions_ok:
  assumes "airportCacheOK (storage st)"
  shows "airportCacheOK (storage (snd (getAirportSuggestions e q st)))"
    and "fst (getAirportSuggestions e q st) = Inr p \<Longrightarrow> suggestionsOK p"
proof -
  let ?key = "js ''airports_'' @ toLowerCase e q"
  let ?c = "cacheGet e ?key st"
  let ?chk = "canMakeCall e (snd ?c)"
  let ?r = "locationsLive e ?key (snd ?chk)"
  have c: "airportCacheOK (storage (snd ?c))"
    by (rule airportCacheOK_get [OF assms])
  then have k: "airportCacheOK (storage (snd ?chk))"
    by (simp add: canMakeCall_frame)
  note r = locationsLive_ok [OF k, of e ?key]
  have "storage (snd (getAirportSuggestions e q st)) = storage st
      \<or> storage (snd (getAirportSuggestions e q st)) = storage (snd ?c)
      \<or> storage (snd (getAirportSuggestions e q st)) = storage (snd ?r)"
    by (simp add: getAirportSuggestions_def Let_def canMakeCall_frame split: sum.splits error.splits)
  with assms c r(1) show "airportCacheOK (storage (snd (getAirportSuggestions e q st)))"
    by auto
  assume "fst (getAirportSuggestions e q st) = Inr p"
  then have "p = PAirports [] \<or> p = hitValue (fst ?c) \<and> isHit (fst ?c)
      \<or> p = PAirports (getMockAirportSuggestions (toLowerCase e) q) \<or> fst ?r = Inr p"
    by (auto simp add: getAirportSuggestions_def Let_def split: sum.splits error.splits if_splits)
  with r(2) [of p] hit_ok [OF assms, of e "toLowerCase e q"] show "suggestionsOK p"
    by (auto simp add: empty_suggestions_ok mock_suggestions_ok)
qed

lemma token_when_available:
  assumes "tokenAvailable e st" and "tokenInfo st' = tokenInfo st"
  shows "\<exists>tok. fst (getAmadeusToken e st') = Inr tok"
  using assms
  by (auto simp add: tokenAvailable_def tokenFresh_def getAmadeusToken_def exchangeToken_def
      truthyString_def Let_def split: option.splits outcome.splits)

lemma locationsLive_rejected:
  assumes "tokenAvailable e st" and "tokenInfo st' = tokenInfo st"
    and "locationsResponse e = Rejected status"
  shows "fst (locationsLive e key st') = Inl (AxiosError status)"
proof -
  obtain tok where "fst (getAmadeusToken e (recordCall e st')) = Inr tok"
    using token_when_available [OF assms(1), of "recordCall e st'"] assms(2)
    by (auto simp add: recordCall_frame)
  then show ?thesis
    using assms(3) by (simp add: locationsLive_def Let_def)
qed

text \<open>
  Claim C9, as the operation keeps it. When every airport list in the cache has at most
  8 entries and no code twice, as every list that the operation stores has, then every
  list that \<^verbatim>\<open>getAirportSuggestions\<close> returns is such a list and the cache stays so. A
  query of fewer than 2 code units returns the empty list and changes nothing. For a
  longer query, a usable cache entry under the lower-cased query is what the operation
  returns, in offline mode too; and when there is none, the offline mode, the fallback
  on a denied quota and the fallback on a rejected location request each return exactly
  the first 8 roster airports whose code, city or name contains the query, compared in
  lower case.
\<close>

theorem airport_suggestions_bounded:
  assumes "airportCacheOK (storage st)"
  shows "(\<forall>p. fst (getAirportSuggestions e query st) = Inr p \<longrightarrow> suggestionsOK p)
       \<and> airportCacheOK (storage (snd (getAirportSuggestions e query st)))
       \<and> (length query < 2 \<longrightarrow> getAirportSuggestions e query st = (Inr (PAirports []), st))
       \<and> (2 \<le> length query
            \<and> isHit (fst (cacheGet e (js ''airports_'' @ toLowerCase e query) st))
          \<longrightarrow> getAirportSuggestions e query st =
                (Inr (hitValue (fst (cacheGet e (js ''airports_'' @ toLowerCase e query) st))),
                 snd (cacheGet e (js ''airports_'' @ toLowerCase e query) st)))
       \<and> (2 \<le> length query
            \<and> \<not> isHit (fst (cacheGet e (js ''airports_'' @ toLowerCase e query) st))
            \<and> (MOCK_MODE e
                \<or> \<not> allowed (fst (APIRateLimiter_canMakeCall (limiter st) (Date_now e)))
                \<or> (tokenAvailable e st \<and> (\<exists>status. locationsResponse e = Rejected status)))
          \<longrightarrow> fst (getAirportSuggestions e query st) =
                Inr (PAirports (take 8 (filter (matchesQuery (toLowerCase e) query) MOCK_AIRPORTS))))"
proof -
  let ?key = "js ''airports_'' @ toLowerCase e query"
  let ?c = "cacheGet e ?key st"
  let ?chk = "canMakeCall e (snd ?c)"
  let ?roster = "Inr (PAirports (take 8 (filter (matchesQuery (toLowerCase e) query) MOCK_AIRPORTS)))
                   :: error + payload"
  have a: "\<forall>p. fst (getAirportSuggestions e query st) = Inr p \<longrightarrow> suggestionsOK p"
    using getAirportSuggestions_ok(2) [OF assms] by blast
  have b: "airportCacheOK (storage (snd (getAirportSuggestions e query st)))"
    by (rule getAirportSuggestions_ok(1) [OF assms])
  have c: "length query < 2 \<longrightarrow> getAirportSuggestions e query st = (Inr (PAirports []), st)"
    by (simp add: getAirportSuggestions_def)
  have h: "2 \<le> length query \<and> isHit (fst ?c)
          \<longrightarrow> getAirportSuggestions e query st = (Inr (hitValue (fst ?c)), snd ?c)"
    by (auto simp add: getAirportSuggestions_def Let_def)
  have al: "allowed (fst ?chk) = allowed (fst (APIRateLimiter_canMakeCall (limiter st) (Date_now e)))"
    by (simp add: canMakeCall_def Let_def cacheGet_frame)
  have m: "2 \<le> length query \<and> \<not> isHit (fst ?c) \<and> MOCK_MODE e
          \<longrightarrow> fst (getAirportSuggestions e query st) = ?roster"
    by (auto simp add: getAirportSuggestions_def Let_def getMockAirportSuggestions_def)
  have q: "2 \<le> length query \<and> \<not> isHit (fst ?c)
            \<and> \<not> allowed (fst (APIRateLimiter_canMakeCall (limiter st) (Date_now e)))
          \<longrightarrow> fst (getAirportSuggestions e query st) = ?roster"
    using al by (auto simp add: getAirportSuggestions_def Let_def getMockAirportSuggestions_def)
  have x: "2 \<le> length query \<and> \<not> isHit (fst ?c)
            \<and> tokenAvailable e st \<and> (\<exists>status. locationsResponse e = Rejected status)
          \<longrightarrow> fst (getAirportSuggestions e query st) = ?roster"
  proof (intro impI)
    assume k: "2 \<le> length query \<and> \<not> isHit (fst ?c)
            \<and> tokenAvailable e st \<and> (\<exists>status. locationsResponse e = Rejected status)"
    then obtain status where r: "locationsResponse e = Rejected status" by blast
    have t: "tokenInfo (snd ?chk) = tokenInfo st"
      by (simp add: canMakeCall_frame cacheGet_frame)
    have l: "fst (locationsLive e ?key (snd ?chk)) = Inl (AxiosError status)"
      using k locationsLive_rejected [OF _ t r, of ?key] by blast
    show "fst (getAirportSuggestions e query st) = ?roster"
    proof (cases "MOCK_MODE e \<or> \<not> allowed (fst ?chk)")
      case True
      with k m q al show ?thesis by blast
    next
      case False
      with k l show ?thesis
        by (auto simp add: getAirportSuggestions_def Let_def getMockAirportSuggestions_def)
    qed
  qed
  from m q x have d: "2 \<le> length query \<and> \<not> isHit (fst ?c)
            \<and> (MOCK_MODE e
                \<or> \<not> allowed (fst (APIRateLimiter_canMakeCall (limiter st) (Date_now e)))
                \<or> (tokenAvailable e st \<and> (\<exists>status. locationsResponse e = Rejected status)))
          \<longrightarrow> fst (getAirportSuggestions e query st) = ?roster"
    by blast
  from a b c h d show ?thesis by (intro conjI)
qed

lemma fresh_cache_ok: "airportCacheOK (storage freshState)"
  by (simp add: airportCacheOK_def freshState_def getItem_def)

theorem airport_suggestions_bounded_witness:
  "2 \<le> length (js ''JF'') \<and> MOCK_MODE offlineEnv
   \<and> \<not> isHit (fst (cacheGet offlineEnv (js ''airports_'' @ toLowerCase offlineEnv (js ''JF''))
                    freshState))
   \<and> fst (getAirportSuggestions offlineEnv (js ''JF'') freshState) =
       Inr (PAirports (take 8 (filter (matchesQuery (toLowerCase offlineEnv) (js ''JF''))
                                 MOCK_AIRPORTS)))
   \<and> suggestionsOK (PAirports (take 8 (filter (matchesQuery (toLowerCase offlineEnv) (js ''JF''))
                                         MOCK_AIRPORTS)))
   \<and> length [8211::int] < 2
   \<and> getAirportSuggestions offlineEnv [8211] freshState = (Inr (PAirports []), freshState)"
proof -
  have l: "2 \<le> length (js ''JF'')" "length [8211::int] < 2" by (simp_all add: js_def)
  have m: "MOCK_MODE offlineEnv" by (simp add: offlineEnv_def)
  have h: "\<not> isHit (fst (cacheGet offlineEnv (js ''airports_'' @ toLowerCase offlineEnv (js ''JF''))
                    freshState))"
    by (simp add: isHit_def cacheGet_def APICacheManager_get_def getItem_def freshState_def)
  note w = airport_suggestions_bounded [OF fresh_cache_ok, of offlineEnv "js ''JF''"]
  from w l(1) m h have r: "fst (getAirportSuggestions offlineEnv (js ''JF'') freshState) =
       Inr (PAirports (take 8 (filter (matchesQuery (toLowerCase offlineEnv) (js ''JF''))
                                 MOCK_AIRPORTS)))"
    by blast
  with w have s: "suggestionsOK (PAirports (take 8 (filter (matchesQuery (toLowerCase offlineEnv)
       (js ''JF'')) MOCK_AIRPORTS)))"
    by blast
  from airport_suggestions_bounded [OF fresh_cache_ok, of offlineEnv "[8211]"] l(2)
  have e: "getAirportSuggestions offlineEnv [8211] freshState = (Inr (PAirports []), freshState)"
    by blast
  from l(1) m h r s l(2) e show ?thesis by (intro conjI)
qed

text \<open>
  Claim C9 as stated fails in offline mode over a cache that a live session filled: the
  cache is read before the mode is looked at, so the query JF returns the airport that
  the live location search had answered, not the roster entry.
\<close>

theorem offline_suggestions_counterexample:
  "MOCK_MODE offlineEnv
   \<and> fst (getAirportSuggestions offlineEnv (js ''JF'')
            (freshState\<lparr>storage :=
               storage (snd (getAirportSuggestions liveAirportsEnv (js ''JF'') freshState))\<rparr>))
       = Inr (PAirports [\<lparr>code = js ''JFK'', name = js ''JOHN F KENNEDY INTL'',
                          city = js ''NEW YORK''\<rparr>])
   \<and> take 8 (filter (matchesQuery (toLowerCase offlineEnv) (js ''JF'')) MOCK_AIRPORTS)
       = [\<lparr>code = js ''JFK'', name = js ''John F. Kennedy International'',
           city = js ''New York''\<rparr>]"
  by code_simp

end
